theory Spec2Isabelle
  imports Main "HOL-Library.Sublist"
begin

section \<open>Python values used by the audit tool\<close>

text \<open>
  Exceptions are values. Every constructor carries what \<open>str(e)\<close> would print,
  because the command-line boundary of the Cloud Shell implementation puts that text
  into its exit message. \<open>NotFound\<close> is \<open>google.api_core.exceptions.NotFound\<close>,
  \<open>CollaboratorError\<close> any other exception a client library raises, and
  \<open>SystemExit\<close> what \<open>sys.exit(message)\<close> raises: it is not an \<open>Exception\<close>, so
  no \<open>except Exception\<close> clause catches it.
\<close>

datatype error =
    ValueError string
  | IndexError string
  | NameError string
  | AttributeError string
  | TypeError string
  | NotFound string
  | CollaboratorError string
  | SystemExit string

fun str_of :: "error \<Rightarrow> string" where
  "str_of (ValueError m) = m"
| "str_of (IndexError m) = m"
| "str_of (NameError m) = m"
| "str_of (AttributeError m) = m"
| "str_of (TypeError m) = m"
| "str_of (NotFound m) = m"
| "str_of (CollaboratorError m) = m"
| "str_of (SystemExit m) = m"

definition quoted :: "string \<Rightarrow> string" where
  "quoted s = CHR 0x27 # s @ [CHR 0x27]"

section \<open>Destination parser\<close>

text \<open>
  \<open>str.split(sep)\<close> with a one-character separator: the text between consecutive
  separators, in order. The result is never empty; the empty string gives one empty
  segment.
\<close>

fun split :: "char \<Rightarrow> string \<Rightarrow> string list" where
  "split sep [] = [[]]"
| "split sep (c # cs) =
     (if c = sep then [] # split sep cs
      else (case split sep cs of
              [] \<Rightarrow> [[c]]
            | p # ps \<Rightarrow> (c # p) # ps))"

text \<open>\<open>sep.join(parts)\<close>, the inverse direction, used to describe URLs by their segments.\<close>

fun join :: "char \<Rightarrow> string list \<Rightarrow> string" where
  "join sep [] = []"
| "join sep [p] = p"
| "join sep (p # q # ps) = p @ sep # join sep (q # ps)"

text \<open>
  \<open>get_destination_info\<close> of the Cloud Shell implementation. \<open>parts[0]\<close> is read
  before the length test, so an empty \<open>parts\<close> would be an \<open>IndexError\<close>; the
  length test raises \<open>ValueError\<close>; \<open>parts[-1]\<close> is the last element; the project
  is \<open>parts[2]\<close> or \<open>None\<close>.
\<close>

definition get_destination_info :: "string \<Rightarrow> error + (string \<times> string \<times> string option)" where
  "get_destination_info destination =
     (let parts = split CHR ''/'' destination in
      case parts of
        [] \<Rightarrow> Inl (IndexError ''list index out of range'')
      | dest_type # _ \<Rightarrow>
          if length parts < 2
          then Inl (ValueError (''Invalid destination format: '' @ destination))
          else
            let resource_name = last parts;
                project_id = (if length parts > 2 then Some (parts ! 2) else None)
            in Inr (dest_type, resource_name, project_id))"

section \<open>Policies and findings\<close>

type_synonym bindings = "(string \<times> string list) list"

text \<open>
  A policy is what a provider hands back: either a dict from role to members, kept as
  the list of its items in iteration order, or some other object with a class name and
  attributes. The keys of a dict are distinct.
\<close>

datatype policy =
    Mapping bindings
  | Object string "(string \<times> policy) list"

fun type_name :: "policy \<Rightarrow> string" where
  "type_name (Mapping m) = ''dict''"
| "type_name (Object cls attrs) = cls"

text \<open>\<open>getattr(policy, 'bindings', default)\<close>: a dict has no attribute of that name.\<close>

fun getattr_bindings :: "policy \<Rightarrow> policy \<Rightarrow> policy" where
  "getattr_bindings (Mapping m) dflt = dflt"
| "getattr_bindings (Object cls attrs) dflt =
     (case map_of attrs ''bindings'' of None \<Rightarrow> dflt | Some v \<Rightarrow> v)"

text \<open>\<open>policy.bindings\<close>, the attribute access without a default.\<close>

fun attr_bindings :: "policy \<Rightarrow> error + policy" where
  "attr_bindings (Mapping m) =
     Inl (AttributeError (quoted ''dict'' @ '' object has no attribute '' @ quoted ''bindings''))"
| "attr_bindings (Object cls attrs) =
     (case map_of attrs ''bindings'' of
        None \<Rightarrow> Inl (AttributeError (quoted cls @ '' object has no attribute '' @ quoted ''bindings''))
      | Some v \<Rightarrow> Inr v)"

text \<open>
  \<open>x.items()\<close>: the items of a dict. On another object the attribute is missing, or
  it is a data attribute, which cannot be called.
\<close>

fun items :: "policy \<Rightarrow> error + bindings" where
  "items (Mapping m) = Inr m"
| "items (Object cls attrs) =
     (case map_of attrs ''items'' of
        None \<Rightarrow> Inl (AttributeError (quoted cls @ '' object has no attribute '' @ quoted ''items''))
      | Some v \<Rightarrow> Inl (TypeError (quoted (type_name v) @ '' object is not callable'')))"

record AuditFinding =
  role :: string
  members :: "string list"
  expected_role :: "string option"

definition BIGQUERY :: string where "BIGQUERY = ''bigquery.googleapis.com''"
definition STORAGE :: string where "STORAGE = ''storage.googleapis.com''"
definition PUBSUB :: string where "PUBSUB = ''pubsub.googleapis.com''"

definition EXPECTED_ROLES :: "(string \<times> string) list" where
  "EXPECTED_ROLES =
     [(BIGQUERY, ''roles/bigquery.dataEditor''),
      (STORAGE, ''roles/storage.objectCreator''),
      (PUBSUB, ''roles/pubsub.publisher'')]"

text \<open>
  The loop of \<open>audit_policy\<close> in the Cloud Shell implementation; \<open>findings\<close> is the
  list the loop appends to.
\<close>

fun audit_loop :: "string \<Rightarrow> string option \<Rightarrow> bindings \<Rightarrow> AuditFinding list \<Rightarrow> AuditFinding list" where
  "audit_loop writer_identity expected [] findings = findings"
| "audit_loop writer_identity expected ((r, ms) # rest) findings =
     (if writer_identity \<in> set ms
      then audit_loop writer_identity expected rest
             (findings @ [\<lparr>role = r, members = ms, expected_role = expected\<rparr>])
      else audit_loop writer_identity expected rest findings)"

definition audit_policy :: "policy \<Rightarrow> string \<Rightarrow> string \<Rightarrow> error + AuditFinding list" where
  "audit_policy policy writer_identity destination_type =
     (let bindings = getattr_bindings policy policy;
          expected = map_of EXPECTED_ROLES destination_type
      in case items bindings of
           Inl e \<Rightarrow> Inl e
         | Inr bs \<Rightarrow> Inr (audit_loop writer_identity expected bs []))"

text \<open>
  The first implementation's \<open>audit_policy(policy, writer_identity)\<close>: the findings are
  the pairs \<open>(role, members)\<close> themselves.
\<close>

fun audit_loop_v1 :: "string \<Rightarrow> bindings \<Rightarrow> bindings \<Rightarrow> bindings" where
  "audit_loop_v1 writer_identity [] findings = findings"
| "audit_loop_v1 writer_identity ((r, ms) # rest) findings =
     (if writer_identity \<in> set ms
      then audit_loop_v1 writer_identity rest (findings @ [(r, ms)])
      else audit_loop_v1 writer_identity rest findings)"

definition audit_policy_v1 :: "policy \<Rightarrow> string \<Rightarrow> error + bindings" where
  "audit_policy_v1 policy writer_identity =
     (case items policy of
        Inl e \<Rightarrow> Inl e
      | Inr bs \<Rightarrow> Inr (audit_loop_v1 writer_identity bs []))"

section \<open>The audit on a heap of objects\<close>

text \<open>
  Dicts, lists and class instances are mutable objects that the caller shares with
  \<open>audit_policy\<close>. Here an object lives at an address of a heap, a reference is an
  address, and creating an object extends the heap. A members list, a dict from role to
  its members, any other instance with a class name and attributes, an
  \<open>AuditFinding\<close> (whose \<open>members\<close> is the very list of the policy) and a list of
  findings are the objects the function can meet. Strings are immutable and are kept as
  values.
\<close>

type_synonym addr = nat

datatype obj =
    ListObj "string list"
  | DictObj "(string \<times> addr) list"
  | InstanceObj string "(string \<times> addr) list"
  | FindingObj string addr "string option"
  | FindingsObj "addr list"

type_synonym heap = "obj list"

text \<open>
  Every reference of a running program points to a live object; \<open>closed\<close> below says
  so. For an address outside the heap the functions have to answer something and
  answer \<open>no_object\<close>.
\<close>

definition deref :: "heap \<Rightarrow> addr \<Rightarrow> obj option" where
  "deref h a = (if a < length h then Some (h ! a) else None)"

definition alloc :: "heap \<Rightarrow> obj \<Rightarrow> addr \<times> heap" where
  "alloc h ob = (length h, h @ [ob])"

fun obj_type_name :: "obj \<Rightarrow> string" where
  "obj_type_name (ListObj ms) = ''list''"
| "obj_type_name (DictObj kvs) = ''dict''"
| "obj_type_name (InstanceObj cls attrs) = cls"
| "obj_type_name (FindingObj r m e) = ''AuditFinding''"
| "obj_type_name (FindingsObj as) = ''list''"

definition no_object :: error where
  "no_object = TypeError ''no object at this address''"

text \<open>
  \<open>x in obj\<close> for a string \<open>x\<close>: an element of a list, a key of a dict, never one of
  a list of findings, and a \<open>TypeError\<close> on an object that cannot be iterated.
\<close>

fun contains :: "obj \<Rightarrow> string \<Rightarrow> error + bool" where
  "contains (ListObj ms) x = Inr (x \<in> set ms)"
| "contains (DictObj kvs) x = Inr (x \<in> set (map fst kvs))"
| "contains (FindingsObj as) x = Inr False"
| "contains ob x =
     Inl (TypeError (''argument of type '' @ quoted (obj_type_name ob) @ '' is not iterable''))"

definition contains_at :: "heap \<Rightarrow> addr \<Rightarrow> string \<Rightarrow> error + bool" where
  "contains_at h m x = (case deref h m of None \<Rightarrow> Inl no_object | Some ob \<Rightarrow> contains ob x)"

definition getattr_bindings_at :: "heap \<Rightarrow> addr \<Rightarrow> addr \<Rightarrow> addr" where
  "getattr_bindings_at h policy dflt =
     (case deref h policy of
        Some (InstanceObj cls attrs) \<Rightarrow>
          (case map_of attrs ''bindings'' of None \<Rightarrow> dflt | Some v \<Rightarrow> v)
      | other \<Rightarrow> dflt)"

definition items_at :: "heap \<Rightarrow> addr \<Rightarrow> error + (string \<times> addr) list" where
  "items_at h b =
     (case deref h b of
        None \<Rightarrow> Inl no_object
      | Some (DictObj kvs) \<Rightarrow> Inr kvs
      | Some (InstanceObj cls attrs) \<Rightarrow>
          (case map_of attrs ''items'' of
             None \<Rightarrow>
               Inl (AttributeError (quoted cls @ '' object has no attribute '' @ quoted ''items''))
           | Some v \<Rightarrow>
               (case deref h v of
                  None \<Rightarrow> Inl no_object
                | Some ob \<Rightarrow>
                    Inl (TypeError (quoted (obj_type_name ob) @ '' object is not callable''))))
      | Some ob \<Rightarrow>
          Inl (AttributeError
                 (quoted (obj_type_name ob) @ '' object has no attribute '' @ quoted ''items'')))"

text \<open>\<open>findings.append(finding)\<close>: the list object is updated in place.\<close>

definition append_ref :: "heap \<Rightarrow> addr \<Rightarrow> addr \<Rightarrow> heap" where
  "append_ref h f a =
     (case deref h f of
        Some (FindingsObj as) \<Rightarrow> h[f := FindingsObj (as @ [a])]
      | other \<Rightarrow> h)"

text \<open>
  \<open>audit_policy\<close> of the Cloud Shell implementation, statement by statement: the empty
  \<open>findings\<close> list is created, \<open>bindings\<close> and \<open>expected_role\<close> are read, and
  the loop runs over the items of the dict, reading each members object from the heap as
  it stands at that moment, creating a finding and appending it. The body of the loop
  has no statement that writes to a dict, so the iterator meets the items the dict had
  when the loop began; that no other object is written either is proved below, not
  assumed.
\<close>

fun audit_loop_heap ::
  "string \<Rightarrow> string option \<Rightarrow> addr \<Rightarrow> (string \<times> addr) list \<Rightarrow> heap \<Rightarrow> (error + unit) \<times> heap" where
  "audit_loop_heap writer_identity expected findings [] h = (Inr (), h)"
| "audit_loop_heap writer_identity expected findings ((r, m) # rest) h =
     (case contains_at h m writer_identity of
        Inl e \<Rightarrow> (Inl e, h)
      | Inr False \<Rightarrow> audit_loop_heap writer_identity expected findings rest h
      | Inr True \<Rightarrow>
          (case alloc h (FindingObj r m expected) of
             (finding, h1) \<Rightarrow>
               audit_loop_heap writer_identity expected findings rest
                 (append_ref h1 findings finding)))"

definition audit_policy_heap :: "heap \<Rightarrow> addr \<Rightarrow> string \<Rightarrow> string \<Rightarrow> (error + addr) \<times> heap" where
  "audit_policy_heap h policy writer_identity destination_type =
     (case alloc h (FindingsObj []) of
        (findings, h1) \<Rightarrow>
          (let bindings = getattr_bindings_at h1 policy policy;
               expected = map_of EXPECTED_ROLES destination_type
           in case items_at h1 bindings of
                Inl e \<Rightarrow> (Inl e, h1)
              | Inr kvs \<Rightarrow>
                  (case audit_loop_heap writer_identity expected findings kvs h1 of
                     (Inl e, h2) \<Rightarrow> (Inl e, h2)
                   | (Inr u, h2) \<Rightarrow> (Inr findings, h2))))"

section \<open>Collaborators and runs\<close>

text \<open>
  The client libraries are outside the program. A run is given their answers: whether
  constructing a client of a class raises, and what each request returns or raises.
\<close>

record collaborators =
  new_client :: "string \<Rightarrow> error + unit"
  sink_reload :: "string \<Rightarrow> string \<Rightarrow> error + (string \<times> string)"
  bucket_get_iam_policy :: "string \<Rightarrow> error + policy"
  dataset_get_iam_policy :: "string \<Rightarrow> error + policy"
  topic_get_iam_policy :: "string \<Rightarrow> string \<Rightarrow> error + policy"

text \<open>
  What a run does to the outside, in order: clients constructed, requests sent, lines
  printed. A finding line is kept as its three parts.
\<close>

datatype event =
    NewClient string
  | SinkReload string string
  | FetchDataset string
  | FetchBucket string
  | FetchTopic string string
  | Print string
  | PrintFinding string "string list" "string option"

type_synonym 'a io = "event list \<times> (error + 'a)"

definition return_io :: "'a \<Rightarrow> 'a io" where
  "return_io x = ([], Inr x)"

definition raise_io :: "error \<Rightarrow> 'a io" where
  "raise_io e = ([], Inl e)"

definition lift_io :: "error + 'a \<Rightarrow> 'a io" where
  "lift_io r = ([], r)"

definition bind_io :: "'a io \<Rightarrow> ('a \<Rightarrow> 'b io) \<Rightarrow> 'b io" where
  "bind_io m f =
     (case m of
        (ev, Inl e) \<Rightarrow> (ev, Inl e)
      | (ev, Inr x) \<Rightarrow> (case f x of (ev', r) \<Rightarrow> (ev @ ev', r)))"

definition print :: "string \<Rightarrow> unit io" where
  "print line = ([Print line], Inr ())"

definition construct :: "collaborators \<Rightarrow> string \<Rightarrow> unit io" where
  "construct c cls = ([NewClient cls], new_client c cls)"

subsection \<open>The Cloud Shell implementation\<close>

text \<open>\<open>except exceptions.NotFound: raise ValueError(message)\<close> around a block.\<close>

definition except_NotFound :: "string \<Rightarrow> 'a io \<Rightarrow> 'a io" where
  "except_NotFound message m =
     (case m of
        (ev, Inl (NotFound x)) \<Rightarrow> (ev, Inl (ValueError message))
      | (ev, r) \<Rightarrow> (ev, r))"

definition get_writer_identity :: "collaborators \<Rightarrow> string \<Rightarrow> string \<Rightarrow> (string \<times> string) io" where
  "get_writer_identity c sink_name project_id =
     except_NotFound
       (''Sink '' @ quoted sink_name @ '' not found in project '' @ quoted project_id)
       (bind_io (construct c ''logging_v2.Client'') (\<lambda>client.
          ([SinkReload project_id sink_name], sink_reload c project_id sink_name)))"

definition get_storage_policy :: "collaborators \<Rightarrow> string \<Rightarrow> policy io" where
  "get_storage_policy c bucket_name =
     except_NotFound
       (''Storage bucket '' @ quoted bucket_name @ '' not found'')
       (bind_io (construct c ''storage.Client'') (\<lambda>client.
          ([FetchBucket bucket_name], bucket_get_iam_policy c bucket_name)))"

definition get_bigquery_policy :: "collaborators \<Rightarrow> string \<Rightarrow> policy io" where
  "get_bigquery_policy c dataset_id =
     except_NotFound
       (''BigQuery dataset '' @ quoted dataset_id @ '' not found'')
       (bind_io (construct c ''bigquery.Client'') (\<lambda>client.
          ([FetchDataset dataset_id], dataset_get_iam_policy c dataset_id)))"

definition get_pubsub_policy :: "collaborators \<Rightarrow> string \<Rightarrow> string \<Rightarrow> policy io" where
  "get_pubsub_policy c topic_name project_id =
     except_NotFound
       (''Pub/Sub topic '' @ quoted topic_name @ '' not found'')
       (bind_io (construct c ''pubsub_v1.PublisherClient'') (\<lambda>client.
          ([FetchTopic project_id topic_name], topic_get_iam_policy c project_id topic_name)))"

text \<open>The \<open>if\<close>/\<open>elif\<close> chain of \<open>main\<close> that fetches the policy.\<close>

definition main_dispatch :: "collaborators \<Rightarrow> string \<Rightarrow> string \<Rightarrow> string \<Rightarrow> policy io" where
  "main_dispatch c dest_type resource_name project_id =
     (if prefix BIGQUERY dest_type then get_bigquery_policy c resource_name
      else if prefix STORAGE dest_type then get_storage_policy c resource_name
      else if prefix PUBSUB dest_type then get_pubsub_policy c resource_name project_id
      else raise_io (SystemExit (''Error: Unsupported destination type: '' @ dest_type)))"

definition report :: "AuditFinding list \<Rightarrow> unit io" where
  "report findings =
     (if findings \<noteq> []
      then (Print (CHR 0x0A # ''IAM Policy Audit Findings:'')
              # map (\<lambda>f. PrintFinding (role f) (members f) (expected_role f)) findings,
            Inr ())
      else print (CHR 0x0A # ''No excessive permissions found for the writer identity''))"

text \<open>
  The two \<open>except\<close> clauses of \<open>main\<close>: a \<open>ValueError\<close> and any other \<open>Exception\<close>
  become \<open>sys.exit\<close> with a message; a \<open>SystemExit\<close> raised inside passes through.
\<close>

fun main_handler :: "error \<Rightarrow> error" where
  "main_handler (ValueError m) = SystemExit (''Error: '' @ m)"
| "main_handler (SystemExit m) = SystemExit m"
| "main_handler e = SystemExit (''Unexpected error: '' @ str_of e)"

definition try_main :: "'a io \<Rightarrow> 'a io" where
  "try_main m =
     (case m of
        (ev, Inl e) \<Rightarrow> (ev, Inl (main_handler e))
      | (ev, Inr x) \<Rightarrow> (ev, Inr x))"

text \<open>\<open>dest_project or args.project_id\<close>: \<open>None\<close> and the empty string are false.\<close>

definition or_else :: "string option \<Rightarrow> string \<Rightarrow> string" where
  "or_else a b = (case a of None \<Rightarrow> b | Some x \<Rightarrow> if x = [] then b else x)"

definition main :: "collaborators \<Rightarrow> string \<Rightarrow> string \<Rightarrow> unit io" where
  "main c sink_name args_project_id =
     try_main
       (bind_io (get_writer_identity c sink_name args_project_id) (\<lambda>(writer_identity, destination).
        bind_io (print (''Writer Identity: '' @ writer_identity)) (\<lambda>u1.
        bind_io (print (''Destination: '' @ destination)) (\<lambda>u2.
        bind_io (lift_io (get_destination_info destination)) (\<lambda>(dest_type, resource_name, dest_project).
        let project_id = or_else dest_project args_project_id in
        bind_io (main_dispatch c dest_type resource_name project_id) (\<lambda>policy.
        bind_io (lift_io (audit_policy policy writer_identity dest_type)) (\<lambda>findings.
        report findings)))))))"

subsection \<open>The first implementation\<close>

definition get_writer_identity_v1 :: "collaborators \<Rightarrow> string \<Rightarrow> string \<Rightarrow> (string \<times> string) io" where
  "get_writer_identity_v1 c sink_name project_id =
     bind_io (construct c ''logging.Client'') (\<lambda>client.
       ([SinkReload project_id sink_name], sink_reload c project_id sink_name))"

definition get_storage_policy_v1 :: "collaborators \<Rightarrow> string \<Rightarrow> policy io" where
  "get_storage_policy_v1 c bucket_name =
     bind_io (construct c ''storage.Client'') (\<lambda>client.
       ([FetchBucket bucket_name], bucket_get_iam_policy c bucket_name))"

definition get_bigquery_policy_v1 :: "collaborators \<Rightarrow> string \<Rightarrow> policy io" where
  "get_bigquery_policy_v1 c dataset_id =
     bind_io (construct c ''bigquery.Client'') (\<lambda>client.
       ([FetchDataset dataset_id], dataset_get_iam_policy c dataset_id))"

text \<open>
  The names a function body of the first implementation can see: its own locals, then
  the module's globals, which are the imported modules and the six functions
  (\<open>logging\<close> is imported inside \<open>get_writer_identity\<close> and is local to it). The
  names the interpreter adds to a module, such as \<open>__name__\<close>, and the builtins hold no
  \<open>project_id\<close> either.
\<close>

datatype pyval = StrVal string | ModuleVal | FunctionVal | ClientVal

definition module_globals_v1 :: "(string \<times> pyval) list" where
  "module_globals_v1 =
     [(''os'', ModuleVal), (''argparse'', ModuleVal), (''storage'', ModuleVal),
      (''bigquery'', ModuleVal), (''pubsub_v1'', ModuleVal), (''iam'', ModuleVal),
      (''get_writer_identity'', FunctionVal), (''get_storage_policy'', FunctionVal),
      (''get_bigquery_policy'', FunctionVal), (''get_pubsub_policy'', FunctionVal),
      (''audit_policy'', FunctionVal), (''main'', FunctionVal)]"

definition lookup_name :: "(string \<times> pyval) list \<Rightarrow> string \<Rightarrow> error + pyval" where
  "lookup_name locals name =
     (case map_of (locals @ module_globals_v1) name of
        None \<Rightarrow> Inl (NameError (''name '' @ quoted name @ '' is not defined''))
      | Some v \<Rightarrow> Inr v)"

text \<open>
  \<open>topic_path\<close> formats its arguments into the path; only a string is a project here.
\<close>

definition get_pubsub_policy_v1 :: "collaborators \<Rightarrow> string \<Rightarrow> policy io" where
  "get_pubsub_policy_v1 c topic_name =
     bind_io (construct c ''pubsub_v1.PublisherClient'') (\<lambda>client.
     bind_io (lift_io (lookup_name [(''topic_name'', StrVal topic_name), (''client'', ClientVal)]
                         ''project_id'')) (\<lambda>v.
       case v of
         StrVal project_id \<Rightarrow>
           ([FetchTopic project_id topic_name], topic_get_iam_policy c project_id topic_name)
       | other \<Rightarrow> raise_io (TypeError ''project is not a string'')))"

definition report_v1 :: "bindings \<Rightarrow> unit io" where
  "report_v1 findings =
     (if findings \<noteq> []
      then (Print (CHR 0x0A # ''IAM Policy Audit Findings:'')
              # map (\<lambda>(r, ms). PrintFinding r ms None) findings,
            Inr ())
      else print (CHR 0x0A # ''No excessive permissions found for the writer identity.''))"

text \<open>\<open>not os.getenv(name)\<close>: the variable is unset or empty.\<close>

definition getenv_missing :: "(string \<times> string) list \<Rightarrow> string \<Rightarrow> bool" where
  "getenv_missing environ name =
     (case map_of environ name of None \<Rightarrow> True | Some v \<Rightarrow> v = [])"

definition main_v1 :: "(string \<times> string) list \<Rightarrow> collaborators \<Rightarrow> string \<Rightarrow> string \<Rightarrow> unit io" where
  "main_v1 environ c sink_name project_id =
     (if getenv_missing environ ''GOOGLE_APPLICATION_CREDENTIALS''
      then print (''Please set the GOOGLE_APPLICATION_CREDENTIALS environment variable '' @
                  ''to your service account key.'')
      else
        bind_io (get_writer_identity_v1 c sink_name project_id) (\<lambda>(writer_identity, destination).
        bind_io (print (''Writer Identity: '' @ writer_identity)) (\<lambda>u1.
        bind_io (print (''Destination: '' @ destination)) (\<lambda>u2.
        bind_io
          (if prefix ''bigquery.googleapis.com'' destination then
             (let dataset_id = last (split CHR ''/'' destination) in
              bind_io (get_bigquery_policy_v1 c dataset_id) (\<lambda>policy.
              bind_io (lift_io (attr_bindings policy)) (\<lambda>b.
              bind_io (lift_io (audit_policy_v1 b writer_identity)) (\<lambda>findings.
              return_io (Some findings)))))
           else if prefix ''storage.googleapis.com'' destination then
             (let bucket_name = last (split CHR ''/'' destination) in
              bind_io (get_storage_policy_v1 c bucket_name) (\<lambda>policy.
              bind_io (lift_io (audit_policy_v1 policy writer_identity)) (\<lambda>findings.
              return_io (Some findings))))
           else if prefix ''pubsub.googleapis.com'' destination then
             (let topic_name = last (split CHR ''/'' destination) in
              bind_io (get_pubsub_policy_v1 c topic_name) (\<lambda>policy.
              bind_io (lift_io (attr_bindings policy)) (\<lambda>b.
              bind_io (lift_io (audit_policy_v1 b writer_identity)) (\<lambda>findings.
              return_io (Some findings)))))
           else
             bind_io (print ''Unsupported destination type.'') (\<lambda>u3. return_io None))
          (\<lambda>outcome. case outcome of
              None \<Rightarrow> return_io ()
            | Some findings \<Rightarrow> report_v1 findings)))))"

text \<open>
  The exit status of the process: 0 when \<open>main\<close> returns, 1 when it ends in
  \<open>sys.exit(message)\<close> or in an exception nobody caught.
\<close>

fun exit_status :: "unit io \<Rightarrow> nat" where
  "exit_status (ev, Inr u) = 0"
| "exit_status (ev, Inl e) = 1"

text \<open>The requests for a policy among the events of a run.\<close>

fun is_fetch :: "event \<Rightarrow> bool" where
  "is_fetch (FetchDataset d) = True"
| "is_fetch (FetchBucket b) = True"
| "is_fetch (FetchTopic p t) = True"
| "is_fetch e = False"

fun is_collaborator_call :: "event \<Rightarrow> bool" where
  "is_collaborator_call (Print l) = False"
| "is_collaborator_call (PrintFinding r ms e) = False"
| "is_collaborator_call e = True"

section \<open>Auxiliary notions for the statements\<close>

text \<open>The finding the loop builds from one binding.\<close>

definition finding_of :: "string option \<Rightarrow> string \<times> string list \<Rightarrow> AuditFinding" where
  "finding_of e b = \<lparr>role = fst b, members = snd b, expected_role = e\<rparr>"

text \<open>
  The policy requests, and all the calls to client libraries, among the events of a run;
  and a sample set of collaborators in which every client is constructed, the sink has a
  given destination and every resource has a given policy.
\<close>

definition fetches :: "'a io \<Rightarrow> event list" where
  "fetches run = filter is_fetch (fst run)"

definition collaborator_calls :: "'a io \<Rightarrow> event list" where
  "collaborator_calls run = filter is_collaborator_call (fst run)"

definition sample_collaborators :: "string \<Rightarrow> policy \<Rightarrow> collaborators" where
  "sample_collaborators destination policy =
     \<lparr>new_client = (\<lambda>cls. Inr ()),
      sink_reload = (\<lambda>project sink. Inr (''serviceAccount:writer'', destination)),
      bucket_get_iam_policy = (\<lambda>bucket. Inr policy),
      dataset_get_iam_policy = (\<lambda>dataset. Inr policy),
      topic_get_iam_policy = (\<lambda>project topic. Inr policy)\<rparr>"

text \<open>
  The references an object holds, the heaps in which every reference is live, and what
  a findings list shows when it is read off a heap: for each finding its role, the
  members object and the expected role.
\<close>

fun refs :: "obj \<Rightarrow> addr list" where
  "refs (ListObj ms) = []"
| "refs (DictObj kvs) = map snd kvs"
| "refs (InstanceObj cls attrs) = map snd attrs"
| "refs (FindingObj r m e) = [m]"
| "refs (FindingsObj as) = as"

definition closed :: "heap \<Rightarrow> bool" where
  "closed h = (\<forall>ob \<in> set h. \<forall>a \<in> set (refs ob). a < length h)"

definition finding_view :: "heap \<Rightarrow> addr \<Rightarrow> (string \<times> obj option \<times> string option) option" where
  "finding_view h a =
     (case deref h a of
        Some (FindingObj r m e) \<Rightarrow> Some (r, deref h m, e)
      | other \<Rightarrow> None)"

definition findings_view :: "heap \<Rightarrow> addr \<Rightarrow> (string \<times> obj option \<times> string option) option list" where
  "findings_view h f =
     (case deref h f of
        Some (FindingsObj as) \<Rightarrow> map (finding_view h) as
      | other \<Rightarrow> [])"

fun scan :: "heap \<Rightarrow> string \<Rightarrow> (string \<times> addr) list \<Rightarrow> error + (string \<times> addr) list" where
  "scan h w [] = Inr []"
| "scan h w ((r, m) # rest) =
     (case contains_at h m w of
        Inl e \<Rightarrow> Inl e
      | Inr b \<Rightarrow>
          (case scan h w rest of
             Inl e \<Rightarrow> Inl e
           | Inr xs \<Rightarrow> Inr (if b then (r, m) # xs else xs)))"

text \<open>
  What a call decides from the heap it starts in: the bindings that hold the writer
  identity, or the first error.
\<close>

definition outcome :: "heap \<Rightarrow> addr \<Rightarrow> string \<Rightarrow> error + (string \<times> addr) list" where
  "outcome h policy w =
     (case items_at h (getattr_bindings_at h policy policy) of
        Inl e \<Rightarrow> Inl e
      | Inr kvs \<Rightarrow> scan h w kvs)"

text \<open>
  The role-to-members mapping that a dict of the heap stands for, when all its values
  are lists, and a finding of the mapping as a findings list of the heap shows it.
\<close>

fun bindings_of :: "heap \<Rightarrow> (string \<times> addr) list \<Rightarrow> bindings option" where
  "bindings_of h [] = Some []"
| "bindings_of h ((r, m) # rest) =
     (case deref h m of
        Some (ListObj ms) \<Rightarrow>
          (case bindings_of h rest of None \<Rightarrow> None | Some bs \<Rightarrow> Some ((r, ms) # bs))
      | other \<Rightarrow> None)"

definition finding_shown :: "AuditFinding \<Rightarrow> (string \<times> obj option \<times> string option) option" where
  "finding_shown fd = Some (role fd, Some (ListObj (members fd)), expected_role fd)"

text \<open>Collaborators as in the sample, except that the publisher client cannot be constructed.\<close>

definition sample_collaborators_without_publisher :: "string \<Rightarrow> policy \<Rightarrow> collaborators" where
  "sample_collaborators_without_publisher destination policy =
     (sample_collaborators destination policy)
       \<lparr>new_client := (\<lambda>cls. if cls = ''pubsub_v1.PublisherClient''
                               then Inl (CollaboratorError ''publisher client unavailable'')
                               else Inr ())\<rparr>"

section \<open>Properties of the parser\<close>

lemma split_not_Nil: "split sep s \<noteq> []"
  by (induction s) (auto split: list.splits)

lemma length_split: "length (split sep s) = Suc (count_list s sep)"
  by (induction s) (auto split: list.splits)

lemma split_sep_free: "p \<in> set (split sep s) \<Longrightarrow> sep \<notin> set p"
proof (induction s arbitrary: p)
  case Nil
  then show ?case by simp
next
  case (Cons c cs)
  show ?case
  proof (cases "c = sep")
    case True
    with Cons show ?thesis by auto
  next
    case False
    obtain q qs where q: "split sep cs = q # qs"
      using split_not_Nil [of sep cs] by (cases "split sep cs") auto
    with False Cons.prems have "p = c # q \<or> p \<in> set qs" by simp
    then show ?thesis
    proof
      assume "p = c # q"
      moreover have "sep \<notin> set q" using Cons.IH [of q] q by simp
      ultimately show ?thesis using False by auto
    next
      assume "p \<in> set qs"
      then show ?thesis using Cons.IH [of p] q by simp
    qed
  qed
qed

lemma join_split: "join sep (split sep s) = s"
proof (induction s)
  case Nil
  then show ?case by simp
next
  case (Cons c cs)
  obtain q qs where q: "split sep cs = q # qs"
    using split_not_Nil [of sep cs] by (cases "split sep cs") auto
  show ?case
  proof (cases "c = sep")
    case True
    with Cons q show ?thesis by simp
  next
    case False
    with Cons q show ?thesis by (cases qs) auto
  qed
qed

lemma split_sep_free_word: "sep \<notin> set p \<Longrightarrow> split sep p = [p]"
  by (induction p) auto

lemma split_append_sep:
  "sep \<notin> set p \<Longrightarrow> split sep (p @ sep # s) = p # split sep s"
  by (induction p) auto

lemma split_join:
  "segs \<noteq> [] \<Longrightarrow> \<forall>p \<in> set segs. sep \<notin> set p \<Longrightarrow> split sep (join sep segs) = segs"
proof (induction sep segs rule: join.induct)
  case (1 sep)
  then show ?case by simp
next
  case (2 sep p)
  then show ?case by (simp add: split_sep_free_word)
next
  case (3 sep p q ps)
  then show ?case by (simp add: split_append_sep)
qed

lemma hd_split: "hd (split sep s) = takeWhile (\<lambda>c. c \<noteq> sep) s"
  by (induction s) (auto simp: split_not_Nil split: list.splits)

text \<open>
  C3. A destination with at least two segments parses: the type is the first segment,
  the resource name the last one, and the project is the third segment when there are
  more than two segments and absent when there are exactly two.
\<close>

theorem get_destination_info_segments:
  assumes "2 \<le> length (split CHR ''/'' url)"
  shows "get_destination_info url =
           Inr (split CHR ''/'' url ! 0,
                last (split CHR ''/'' url),
                if 2 < length (split CHR ''/'' url) then Some (split CHR ''/'' url ! 2) else None)"
  using assms
  by (cases "split CHR ''/'' url") (auto simp: get_destination_info_def Let_def)

theorem get_destination_info_segments_witness:
  "2 \<le> length (split CHR ''/'' ''storage.googleapis.com/projects/p1/buckets/b1'') \<and>
   get_destination_info ''storage.googleapis.com/projects/p1/buckets/b1'' =
     Inr (''storage.googleapis.com'', ''b1'', Some ''p1'')"
  using get_destination_info_segments [of "''storage.googleapis.com/projects/p1/buckets/b1''"]
  by simp

text \<open>
  The same in terms of the segments: a URL is the join of its segments, none of which
  holds a \<open>/\<close>, and \<open>split\<close> gives them back (\<open>split_join\<close>, \<open>join_split\<close>).
\<close>

lemma get_destination_info_join:
  assumes "2 \<le> length segs" and "\<forall>p \<in> set segs. CHR ''/'' \<notin> set p"
  shows "get_destination_info (join CHR ''/'' segs) =
           Inr (segs ! 0, last segs, if 2 < length segs then Some (segs ! 2) else None)"
proof -
  from assms(1) have "segs \<noteq> []" by auto
  then have s: "split CHR ''/'' (join CHR ''/'' segs) = segs"
    using assms(2) by (rule split_join)
  have "get_destination_info (join CHR ''/'' segs) =
          (case segs of
             [] \<Rightarrow> Inl (IndexError ''list index out of range'')
           | dest_type # rest \<Rightarrow>
               if length segs < 2
               then Inl (ValueError (''Invalid destination format: '' @ join CHR ''/'' segs))
               else Inr (dest_type, last segs,
                         if length segs > 2 then Some (segs ! 2) else None))"
    by (simp only: get_destination_info_def s Let_def)
  also have "\<dots> = Inr (segs ! 0, last segs, if 2 < length segs then Some (segs ! 2) else None)"
    using assms(1) by (cases segs) auto
  finally show ?thesis .
qed

lemma count_list_zero_iff: "count_list s x = 0 \<longleftrightarrow> x \<notin> set s"
  by (induction s) auto

lemma few_segments_iff: "length (split sep s) < 2 \<longleftrightarrow> sep \<notin> set s"
  by (simp add: length_split count_list_zero_iff)

text \<open>
  C4. A destination with fewer than two segments, that is one without any \<open>/\<close>,
  does not parse: the result is the \<open>ValueError\<close> whose message starts
  \<open>Invalid destination format\<close>, and no tuple.
\<close>

theorem get_destination_info_invalid:
  assumes "length (split CHR ''/'' url) < 2"
  shows "get_destination_info url = Inl (ValueError (''Invalid destination format: '' @ url))"
  using assms split_not_Nil [of "CHR ''/''" url]
  by (cases "split CHR ''/'' url") (auto simp: get_destination_info_def Let_def)

theorem get_destination_info_invalid_witness:
  "length (split CHR ''/'' ''storage.googleapis.com'') < 2 \<and>
   get_destination_info ''storage.googleapis.com'' =
     Inl (ValueError ''Invalid destination format: storage.googleapis.com'')"
  using get_destination_info_invalid [of "''storage.googleapis.com''"]
  by simp

lemma audit_loop_filter:
  "audit_loop w e bs acc = acc @ map (finding_of e) (filter (\<lambda>b. w \<in> set (snd b)) bs)"
  by (induction w e bs acc rule: audit_loop.induct) (auto simp: finding_of_def)

lemma audit_loop_v1_filter:
  "audit_loop_v1 w bs acc = acc @ filter (\<lambda>b. w \<in> set (snd b)) bs"
  by (induction w bs acc rule: audit_loop_v1.induct) auto

lemma audit_policy_Mapping:
  "audit_policy (Mapping m) w t =
     Inr (map (finding_of (map_of EXPECTED_ROLES t)) (filter (\<lambda>b. w \<in> set (snd b)) m))"
  by (simp add: audit_policy_def audit_loop_filter)

lemma audit_policy_v1_Mapping:
  "audit_policy_v1 (Mapping m) w = Inr (filter (\<lambda>b. w \<in> set (snd b)) m)"
  by (simp add: audit_policy_v1_def audit_loop_v1_filter)

lemma distinct_keys_count:
  "distinct (map fst bs) \<Longrightarrow>
   length (filter (\<lambda>b. fst b = r) (filter P bs)) =
     (if \<exists>ms. (r, ms) \<in> set bs \<and> P (r, ms) then 1 else 0)"
proof (induction bs)
  case Nil
  then show ?case by simp
next
  case (Cons b bs)
  obtain k v where b: "b = (k, v)" by (cases b)
  from Cons.prems b have notin: "\<And>ms. (k, ms) \<notin> set bs"
    by (auto simp: image_iff)
  from Cons have IH: "length (filter (\<lambda>b. fst b = r) (filter P bs)) =
     (if \<exists>ms. (r, ms) \<in> set bs \<and> P (r, ms) then 1 else 0)" by simp
  show ?case
  proof (cases "k = r")
    case True
    with notin have "filter (\<lambda>b. fst b = r) (filter P bs) = []"
      by (auto simp: filter_empty_conv)
    with True b notin show ?thesis by auto
  next
    case False
    have "length (filter (\<lambda>b. fst b = r) (filter P (b # bs))) =
          length (filter (\<lambda>b. fst b = r) (filter P bs))"
      using False b by simp
    moreover have "(\<exists>ms. (r, ms) \<in> set (b # bs) \<and> P (r, ms)) \<longleftrightarrow>
                   (\<exists>ms. (r, ms) \<in> set bs \<and> P (r, ms))"
      using False b by auto
    ultimately show ?thesis using IH by (simp only:)
  qed
qed

lemma audit_policy_expected:
  "audit_policy p w t = Inr fs \<Longrightarrow> f \<in> set fs \<Longrightarrow> expected_role f = map_of EXPECTED_ROLES t"
  by (auto simp: audit_policy_def Let_def audit_loop_filter finding_of_def split: sum.splits)

lemma audit_policy_erase:
  "audit_policy p w t =
     map_sum id (map (\<lambda>f. f\<lparr>expected_role := map_of EXPECTED_ROLES t\<rparr>)) (audit_policy p w t')"
  by (auto simp: audit_policy_def Let_def audit_loop_filter finding_of_def split: sum.splits)

lemma EXPECTED_ROLES_None:
  "t \<noteq> BIGQUERY \<Longrightarrow> t \<noteq> STORAGE \<Longrightarrow> t \<noteq> PUBSUB \<Longrightarrow> map_of EXPECTED_ROLES t = None"
  by (simp add: EXPECTED_ROLES_def)

section \<open>Properties of the auditor\<close>

lemma count_ps:
  assumes "distinct (map fst m)"
  shows "length (filter (\<lambda>b. fst b = r) (filter (\<lambda>b. w \<in> set (snd b)) m)) =
           (if \<exists>ms. map_of m r = Some ms \<and> w \<in> set ms then 1 else 0)"
proof -
  have "(\<exists>ms. (r, ms) \<in> set m \<and> w \<in> set (snd (r, ms))) \<longleftrightarrow>
        (\<exists>ms. map_of m r = Some ms \<and> w \<in> set ms)"
    using assms by simp
  then show ?thesis
    using distinct_keys_count [OF assms, of r "\<lambda>b. w \<in> set (snd b)"] by (simp only:)
qed

lemma count_fs:
  "length (filter (\<lambda>f. role f = r) (map (finding_of e) ps)) = length (filter (\<lambda>b. fst b = r) ps)"
  by (induction ps) (simp_all add: finding_of_def)

lemma keys_ps:
  assumes "distinct (map fst m)" and "b \<in> set (filter (\<lambda>b. w \<in> set (snd b)) m)"
  shows "map_of m (fst b) = Some (snd b) \<and> w \<in> set (snd b)"
proof -
  from assms(2) have "(fst b, snd b) \<in> set m" and "w \<in> set (snd b)" by simp_all
  then show ?thesis using assms(1) by simp
qed

text \<open>
  C1. On a role-to-members mapping, both implementations of \<open>audit_policy\<close> return
  exactly one finding for every role whose members contain the writer identity, none for
  the other roles, and the empty list when no role has it; every finding's role is a key
  of the policy, its members are that key's members, and they contain the writer
  identity. The keys of a dict are distinct.
\<close>

theorem audit_policy_one_finding_per_role:
  assumes "distinct (map fst m)"
  shows "(\<exists>fs. audit_policy (Mapping m) w t = Inr fs \<and>
            (\<forall>r. length (filter (\<lambda>f. role f = r) fs) =
                   (if \<exists>ms. map_of m r = Some ms \<and> w \<in> set ms then 1 else 0)) \<and>
            ((\<forall>b \<in> set m. w \<notin> set (snd b)) \<longrightarrow> fs = []) \<and>
            (\<forall>f \<in> set fs. map_of m (role f) = Some (members f) \<and> w \<in> set (members f))) \<and>
         (\<exists>ps. audit_policy_v1 (Mapping m) w = Inr ps \<and>
            (\<forall>r. length (filter (\<lambda>b. fst b = r) ps) =
                   (if \<exists>ms. map_of m r = Some ms \<and> w \<in> set ms then 1 else 0)) \<and>
            ((\<forall>b \<in> set m. w \<notin> set (snd b)) \<longrightarrow> ps = []) \<and>
            (\<forall>b \<in> set ps. map_of m (fst b) = Some (snd b) \<and> w \<in> set (snd b)))"
proof (rule conjI)
  let ?ps = "filter (\<lambda>b. w \<in> set (snd b)) m"
  let ?fs = "map (finding_of (map_of EXPECTED_ROLES t)) ?ps"
  have none: "(\<forall>b \<in> set m. w \<notin> set (snd b)) \<longrightarrow> ?ps = []"
    by (simp add: filter_empty_conv)
  show "\<exists>fs. audit_policy (Mapping m) w t = Inr fs \<and>
            (\<forall>r. length (filter (\<lambda>f. role f = r) fs) =
                   (if \<exists>ms. map_of m r = Some ms \<and> w \<in> set ms then 1 else 0)) \<and>
            ((\<forall>b \<in> set m. w \<notin> set (snd b)) \<longrightarrow> fs = []) \<and>
            (\<forall>f \<in> set fs. map_of m (role f) = Some (members f) \<and> w \<in> set (members f))"
  proof (intro exI [of _ ?fs] conjI allI ballI)
    show "audit_policy (Mapping m) w t = Inr ?fs"
      by (rule audit_policy_Mapping)
  next
    fix r
    show "length (filter (\<lambda>f. role f = r) ?fs) =
            (if \<exists>ms. map_of m r = Some ms \<and> w \<in> set ms then 1 else 0)"
      by (simp only: count_fs count_ps [OF assms])
  next
    show "(\<forall>b \<in> set m. w \<notin> set (snd b)) \<longrightarrow> ?fs = []"
      using none by simp
  next
    fix f assume "f \<in> set ?fs"
    then obtain b where b: "b \<in> set ?ps" and f: "f = finding_of (map_of EXPECTED_ROLES t) b"
      by auto
    from keys_ps [OF assms b] f
    show "map_of m (role f) = Some (members f)" and "w \<in> set (members f)"
      by (simp_all add: finding_of_def)
  qed
  show "\<exists>ps. audit_policy_v1 (Mapping m) w = Inr ps \<and>
            (\<forall>r. length (filter (\<lambda>b. fst b = r) ps) =
                   (if \<exists>ms. map_of m r = Some ms \<and> w \<in> set ms then 1 else 0)) \<and>
            ((\<forall>b \<in> set m. w \<notin> set (snd b)) \<longrightarrow> ps = []) \<and>
            (\<forall>b \<in> set ps. map_of m (fst b) = Some (snd b) \<and> w \<in> set (snd b))"
  proof (intro exI [of _ ?ps] conjI allI ballI)
    show "audit_policy_v1 (Mapping m) w = Inr ?ps"
      by (rule audit_policy_v1_Mapping)
  next
    fix r
    show "length (filter (\<lambda>b. fst b = r) ?ps) =
            (if \<exists>ms. map_of m r = Some ms \<and> w \<in> set ms then 1 else 0)"
      by (rule count_ps [OF assms])
  next
    show "(\<forall>b \<in> set m. w \<notin> set (snd b)) \<longrightarrow> ?ps = []"
      by (rule none)
  next
    fix b assume "b \<in> set ?ps"
    from keys_ps [OF assms this]
    show "map_of m (fst b) = Some (snd b)" and "w \<in> set (snd b)"
      by simp_all
  qed
qed

theorem audit_policy_one_finding_per_role_witness:
  "distinct (map fst [(''roles/a'', [''w'', ''x'']), (''roles/b'', [''x''])]) \<and>
   audit_policy (Mapping [(''roles/a'', [''w'', ''x'']), (''roles/b'', [''x''])]) ''w'' STORAGE =
     Inr [\<lparr>role = ''roles/a'', members = [''w'', ''x''],
            expected_role = Some ''roles/storage.objectCreator''\<rparr>] \<and>
   audit_policy_v1 (Mapping [(''roles/a'', [''w'', ''x'']), (''roles/b'', [''x''])]) ''w'' =
     Inr [(''roles/a'', [''w'', ''x''])]"
  using audit_policy_one_finding_per_role
          [of "[(''roles/a'', [''w'', ''x'']), (''roles/b'', [''x''])]" "''w''" STORAGE]
  by (simp add: audit_policy_def audit_policy_v1_def EXPECTED_ROLES_def
                BIGQUERY_def STORAGE_def PUBSUB_def)


lemma prefix_neq:
  "prefix BIGQUERY t \<Longrightarrow> \<not> prefix STORAGE t \<and> \<not> prefix PUBSUB t"
  "prefix STORAGE t \<Longrightarrow> \<not> prefix BIGQUERY t \<and> \<not> prefix PUBSUB t"
  "prefix PUBSUB t \<Longrightarrow> \<not> prefix BIGQUERY t \<and> \<not> prefix STORAGE t"
  by (cases t; simp add: BIGQUERY_def STORAGE_def PUBSUB_def)+

lemma constants_distinct:
  "BIGQUERY \<noteq> STORAGE" "BIGQUERY \<noteq> PUBSUB" "STORAGE \<noteq> PUBSUB"
  by (simp_all add: BIGQUERY_def STORAGE_def PUBSUB_def)

lemma proper_prefix_not_key:
  assumes "K \<in> {BIGQUERY, STORAGE, PUBSUB}" and "prefix K t" and "t \<noteq> K"
  shows "map_of EXPECTED_ROLES t = None"
proof -
  from assms(1) consider "K = BIGQUERY" | "K = STORAGE" | "K = PUBSUB" by blast
  then have "t \<noteq> BIGQUERY \<and> t \<noteq> STORAGE \<and> t \<noteq> PUBSUB"
  proof cases
    case 1
    with assms(2) prefix_neq(1) [of t] have "\<not> prefix STORAGE t" "\<not> prefix PUBSUB t" by simp_all
    with 1 assms(3) show ?thesis by blast
  next
    case 2
    with assms(2) prefix_neq(2) [of t] have "\<not> prefix BIGQUERY t" "\<not> prefix PUBSUB t" by simp_all
    with 2 assms(3) show ?thesis by blast
  next
    case 3
    with assms(2) prefix_neq(3) [of t] have "\<not> prefix BIGQUERY t" "\<not> prefix STORAGE t" by simp_all
    with 3 assms(3) show ?thesis by blast
  qed
  then show ?thesis by (simp add: EXPECTED_ROLES_None)
qed

lemma main_dispatch_selects:
  assumes "K \<in> {BIGQUERY, STORAGE, PUBSUB}" and "prefix K t"
  shows "main_dispatch c t r pr =
           (if K = BIGQUERY then get_bigquery_policy c r
            else if K = STORAGE then get_storage_policy c r
            else get_pubsub_policy c r pr)"
proof -
  from assms(1) consider "K = BIGQUERY" | "K = STORAGE" | "K = PUBSUB" by blast
  then show ?thesis
  proof cases
    case 1
    with assms(2) show ?thesis by (simp add: main_dispatch_def)
  next
    case 2
    with assms(2) prefix_neq(2) [of t] constants_distinct show ?thesis
      by (simp add: main_dispatch_def)
  next
    case 3
    with assms(2) prefix_neq(3) [of t] constants_distinct show ?thesis
      by (simp add: main_dispatch_def)
  qed
qed

text \<open>
  C9. A destination type that starts with one of the three constants without being equal
  to it is dispatched to that constant's retrieval, and every finding of the audit has no
  expected role, since the table is looked up with the whole type.
\<close>

theorem prefix_dispatch_without_expected_role:
  assumes "K \<in> {BIGQUERY, STORAGE, PUBSUB}" and "prefix K t" and "t \<noteq> K"
  shows "main_dispatch c t r pr =
           (if K = BIGQUERY then get_bigquery_policy c r
            else if K = STORAGE then get_storage_policy c r
            else get_pubsub_policy c r pr) \<and>
         (\<forall>fs. audit_policy p w t = Inr fs \<longrightarrow> (\<forall>f \<in> set fs. expected_role f = None))"
proof (intro conjI allI impI ballI)
  show "main_dispatch c t r pr =
           (if K = BIGQUERY then get_bigquery_policy c r
            else if K = STORAGE then get_storage_policy c r
            else get_pubsub_policy c r pr)"
    by (rule main_dispatch_selects [OF assms(1,2)])
next
  fix fs f
  assume "audit_policy p w t = Inr fs" and "f \<in> set fs"
  then have "expected_role f = map_of EXPECTED_ROLES t"
    by (rule audit_policy_expected)
  then show "expected_role f = None"
    by (simp only: proper_prefix_not_key [OF assms])
qed


theorem prefix_dispatch_without_expected_role_witness:
  "STORAGE \<in> {BIGQUERY, STORAGE, PUBSUB} \<and> prefix STORAGE ''storage.googleapis.com2'' \<and>
   ''storage.googleapis.com2'' \<noteq> STORAGE \<and>
   main_dispatch (sample_collaborators ''storage.googleapis.com2/b1'' (Mapping [(''roles/a'', [''w''])]))
     ''storage.googleapis.com2'' ''b1'' ''p'' =
   get_storage_policy (sample_collaborators ''storage.googleapis.com2/b1'' (Mapping [(''roles/a'', [''w''])])) ''b1'' \<and>
   audit_policy (Mapping [(''roles/a'', [''w''])]) ''w'' ''storage.googleapis.com2'' =
     Inr [\<lparr>role = ''roles/a'', members = [''w''], expected_role = None\<rparr>]"
  using prefix_dispatch_without_expected_role
          [of STORAGE "''storage.googleapis.com2''"
              "sample_collaborators ''storage.googleapis.com2/b1'' (Mapping [(''roles/a'', [''w''])])"
              "''b1''" "''p''" "Mapping [(''roles/a'', [''w''])]" "''w''"]
  by (simp add: audit_policy_def EXPECTED_ROLES_def BIGQUERY_def STORAGE_def PUBSUB_def)

text \<open>
  C6. Every finding carries the table's entry for the destination type as its expected
  role: \<open>dataEditor\<close> for BigQuery, \<open>objectCreator\<close> for Storage, \<open>publisher\<close> for
  Pub/Sub, and nothing for any other type, for which the audit returns the same findings
  as for any other type, without the annotation. The policy of scenario 3 gives its two
  findings, one per role, both expecting \<open>roles/storage.objectCreator\<close>.
\<close>

theorem audit_policy_expected_role_annotation:
  "(\<forall>fs. audit_policy p w t = Inr fs \<longrightarrow>
          (\<forall>f \<in> set fs. expected_role f = map_of EXPECTED_ROLES t)) \<and>
   map_of EXPECTED_ROLES ''bigquery.googleapis.com'' = Some ''roles/bigquery.dataEditor'' \<and>
   map_of EXPECTED_ROLES ''storage.googleapis.com'' = Some ''roles/storage.objectCreator'' \<and>
   map_of EXPECTED_ROLES ''pubsub.googleapis.com'' = Some ''roles/pubsub.publisher'' \<and>
   (map_of EXPECTED_ROLES t = None \<longleftrightarrow>
      t \<notin> {''bigquery.googleapis.com'', ''storage.googleapis.com'', ''pubsub.googleapis.com''}) \<and>
   (map_of EXPECTED_ROLES t = None \<longrightarrow>
      audit_policy p w t =
        map_sum id (map (\<lambda>f. f\<lparr>expected_role := None\<rparr>)) (audit_policy p w t')) \<and>
   audit_policy
     (Mapping [(''roles/storage.objectCreator'', [''writerIdentity'']),
               (''roles/storage.admin'', [''writerIdentity'', ''other''])])
     ''writerIdentity'' ''storage.googleapis.com'' =
   Inr [\<lparr>role = ''roles/storage.objectCreator'', members = [''writerIdentity''],
          expected_role = Some ''roles/storage.objectCreator''\<rparr>,
        \<lparr>role = ''roles/storage.admin'', members = [''writerIdentity'', ''other''],
          expected_role = Some ''roles/storage.objectCreator''\<rparr>]"
proof (intro conjI allI impI ballI)
  fix fs f
  assume "audit_policy p w t = Inr fs" and "f \<in> set fs"
  then show "expected_role f = map_of EXPECTED_ROLES t"
    by (rule audit_policy_expected)
next
  show "map_of EXPECTED_ROLES ''bigquery.googleapis.com'' = Some ''roles/bigquery.dataEditor''"
    by (simp add: EXPECTED_ROLES_def BIGQUERY_def)
next
  show "map_of EXPECTED_ROLES ''storage.googleapis.com'' = Some ''roles/storage.objectCreator''"
    by (simp add: EXPECTED_ROLES_def BIGQUERY_def STORAGE_def)
next
  show "map_of EXPECTED_ROLES ''pubsub.googleapis.com'' = Some ''roles/pubsub.publisher''"
    by (simp add: EXPECTED_ROLES_def BIGQUERY_def STORAGE_def PUBSUB_def)
next
  show "map_of EXPECTED_ROLES t = None \<longleftrightarrow>
      t \<notin> {''bigquery.googleapis.com'', ''storage.googleapis.com'', ''pubsub.googleapis.com''}"
    by (simp add: EXPECTED_ROLES_def BIGQUERY_def STORAGE_def PUBSUB_def)
next
  assume "map_of EXPECTED_ROLES t = None"
  with audit_policy_erase [of p w t t']
  show "audit_policy p w t =
        map_sum id (map (\<lambda>f. f\<lparr>expected_role := None\<rparr>)) (audit_policy p w t')"
    by simp
next
  show "audit_policy
     (Mapping [(''roles/storage.objectCreator'', [''writerIdentity'']),
               (''roles/storage.admin'', [''writerIdentity'', ''other''])])
     ''writerIdentity'' ''storage.googleapis.com'' =
   Inr [\<lparr>role = ''roles/storage.objectCreator'', members = [''writerIdentity''],
          expected_role = Some ''roles/storage.objectCreator''\<rparr>,
        \<lparr>role = ''roles/storage.admin'', members = [''writerIdentity'', ''other''],
          expected_role = Some ''roles/storage.objectCreator''\<rparr>]"
    by (simp add: audit_policy_def EXPECTED_ROLES_def BIGQUERY_def STORAGE_def)
qed

theorem audit_policy_expected_role_annotation_witness:
  "map_of EXPECTED_ROLES ''unknown.googleapis.com'' = None \<and>
   audit_policy (Mapping [(''roles/a'', [''w'']), (''roles/b'', [''x''])]) ''w''
     ''unknown.googleapis.com'' =
     Inr [\<lparr>role = ''roles/a'', members = [''w''], expected_role = None\<rparr>] \<and>
   audit_policy (Mapping [(''roles/a'', [''w'']), (''roles/b'', [''x''])]) ''w''
     ''unknown.googleapis.com'' =
     map_sum id (map (\<lambda>f. f\<lparr>expected_role := None\<rparr>))
       (audit_policy (Mapping [(''roles/a'', [''w'']), (''roles/b'', [''x''])]) ''w'' STORAGE)"
  using audit_policy_expected_role_annotation
          [of "Mapping [(''roles/a'', [''w'']), (''roles/b'', [''x''])]" "''w''"
              "''unknown.googleapis.com''" STORAGE]
  by (simp add: audit_policy_def EXPECTED_ROLES_def BIGQUERY_def STORAGE_def PUBSUB_def)

section \<open>Properties of the audit on the heap\<close>

lemma deref_take: "m < f \<Longrightarrow> f \<le> length g \<Longrightarrow> deref (take f g) m = deref g m"
  by (simp add: deref_def)

lemma contains_at_take:
  "m < f \<Longrightarrow> f \<le> length g \<Longrightarrow> contains_at (take f g) m w = contains_at g m w"
  by (simp add: contains_at_def deref_take)

lemma closed_append:
  "closed g \<Longrightarrow> \<forall>a \<in> set (refs ob). a < Suc (length g) \<Longrightarrow> closed (g @ [ob])"
  by (auto simp: closed_def less_Suc_eq)

lemma closed_update:
  assumes "closed g" and "\<forall>a \<in> set (refs ob). a < length g"
  shows "closed (g[f := ob])"
proof -
  have "set (g[f := ob]) \<subseteq> insert ob (set g)"
    by (rule set_update_subset_insert)
  with assms show ?thesis
    by (auto simp: closed_def)
qed

lemma closed_refs: "closed g \<Longrightarrow> a < length g \<Longrightarrow> r \<in> set (refs (g ! a)) \<Longrightarrow> r < length g"
  by (auto simp: closed_def)

lemma closed_append_ref:
  assumes "closed g" and "a < length g"
  shows "closed (append_ref g f a)"
proof (cases "deref g f")
  case None
  with assms show ?thesis by (simp add: append_ref_def)
next
  case (Some ob)
  then have f: "f < length g" and ob: "ob = g ! f"
    by (auto simp: deref_def split: if_splits)
  show ?thesis
  proof (cases ob)
    case (FindingsObj as)
    with ob have "\<forall>r \<in> set as. r < length g"
      using closed_refs [OF assms(1) f] by (metis refs.simps(5))
    with FindingsObj Some assms show ?thesis
      by (simp add: append_ref_def closed_update)
  qed (use Some assms in \<open>simp_all add: append_ref_def\<close>)
qed

lemma length_append_ref [simp]: "length (append_ref g f a) = length g"
  by (simp add: append_ref_def split: option.splits obj.splits)

lemma take_append_ref: "take f (append_ref g f a) = take f g"
  by (simp add: append_ref_def split: option.splits obj.splits)

lemma audit_loop_heap_frame:
  "f < length g \<Longrightarrow>
   take f (snd (audit_loop_heap w e f kvs g)) = take f g \<and>
   length g \<le> length (snd (audit_loop_heap w e f kvs g))"
proof (induction kvs arbitrary: g)
  case Nil
  then show ?case by simp
next
  case (Cons kv kvs)
  obtain r m where kv: "kv = (r, m)" by (cases kv)
  show ?case
  proof (cases "contains_at g m w")
    case (Inl err)
    with kv show ?thesis by simp
  next
    case (Inr b)
    show ?thesis
    proof (cases b)
      case False
      with Inr kv Cons show ?thesis by simp
    next
      case True
      let ?g2 = "append_ref (g @ [FindingObj r m e]) f (length g)"
      have "f < length ?g2" using Cons.prems by simp
      from Cons.IH [OF this] Cons.prems
      have "take f (snd (audit_loop_heap w e f kvs ?g2)) = take f g \<and>
            length g \<le> length (snd (audit_loop_heap w e f kvs ?g2))"
        by (simp add: take_append_ref)
      with True Inr kv show ?thesis by (simp add: alloc_def)
    qed
  qed
qed

lemma audit_loop_heap_closed:
  "closed g \<Longrightarrow> \<forall>m \<in> set (map snd kvs). m < length g \<Longrightarrow>
   closed (snd (audit_loop_heap w e f kvs g))"
proof (induction kvs arbitrary: g)
  case Nil
  then show ?case by simp
next
  case (Cons kv kvs)
  obtain r m where kv: "kv = (r, m)" by (cases kv)
  show ?case
  proof (cases "contains_at g m w")
    case (Inl err)
    with kv Cons.prems show ?thesis by simp
  next
    case (Inr b)
    show ?thesis
    proof (cases b)
      case False
      with Inr kv Cons show ?thesis by simp
    next
      case True
      let ?g1 = "g @ [FindingObj r m e]"
      let ?g2 = "append_ref ?g1 f (length g)"
      have "closed ?g1"
        using Cons.prems kv by (intro closed_append) auto
      then have "closed ?g2"
        by (rule closed_append_ref) simp
      moreover have "\<forall>m \<in> set (map snd kvs). m < length ?g2"
        using Cons.prems by auto
      ultimately have "closed (snd (audit_loop_heap w e f kvs ?g2))"
        by (rule Cons.IH)
      with True Inr kv show ?thesis by (simp add: alloc_def)
    qed
  qed
qed

lemma append_ref_findings:
  "f < length g \<Longrightarrow> g ! f = FindingsObj as \<Longrightarrow>
   append_ref g f a = g[f := FindingsObj (as @ [a])]"
  by (simp add: append_ref_def deref_def)

lemma scan_take:
  "\<forall>m \<in> set (map snd kvs). m < f \<Longrightarrow> f \<le> length g \<Longrightarrow> scan (take f g) w kvs = scan g w kvs"
  by (induction kvs) (auto simp: contains_at_take split: sum.splits)

lemma scan_prefix:
  assumes "\<forall>m \<in> set (map snd kvs). m < length h" and "prefix h g"
  shows "scan g w kvs = scan h w kvs"
proof -
  from assms(2) have "take (length h) g = h" and "length h \<le> length g"
    by (auto simp: prefix_def)
  then show ?thesis
    using scan_take [OF assms(1), of g w] by simp
qed

lemma audit_loop_heap_result:
  assumes "f < length g" and "\<forall>m \<in> set (map snd kvs). m < f"
  shows "fst (audit_loop_heap w e f kvs g) = map_sum id (\<lambda>xs. ()) (scan g w kvs)"
  using assms
proof (induction kvs arbitrary: g)
  case Nil
  then show ?case by simp
next
  case (Cons kv kvs)
  obtain r m where kv: "kv = (r, m)" by (cases kv)
  from Cons.prems kv have m: "m < f" and rest: "\<forall>m \<in> set (map snd kvs). m < f" by auto
  show ?case
  proof (cases "contains_at g m w")
    case (Inl err)
    with kv show ?thesis by simp
  next
    case (Inr b)
    show ?thesis
    proof (cases b)
      case False
      with Inr kv Cons.IH [OF Cons.prems(1) rest] show ?thesis
        by (cases "scan g w kvs") simp_all
    next
      case True
      let ?g2 = "append_ref (g @ [FindingObj r m e]) f (length g)"
      have len: "f < length ?g2" using Cons.prems(1) by simp
      have "take f ?g2 = take f g"
        using Cons.prems(1) by (simp add: take_append_ref)
      then have "scan ?g2 w kvs = scan g w kvs"
        using scan_take [OF rest, of ?g2 w] scan_take [OF rest, of g w] len Cons.prems(1)
        by simp
      with Cons.IH [OF len rest] True Inr kv show ?thesis
        by (cases "scan g w kvs") (simp_all add: alloc_def)
    qed
  qed
qed

lemma upt_shift: "[n ..< Suc (n + k)] = n # [Suc n ..< Suc (n + k)]"
  by (rule upt_conv_Cons) simp

lemma audit_loop_heap_success:
  assumes "f < length g" and "g ! f = FindingsObj as" and "\<forall>m \<in> set (map snd kvs). m < f"
      and "scan g w kvs = Inr xs"
  shows "snd (audit_loop_heap w e f kvs g) =
           g[f := FindingsObj (as @ [length g ..< length g + length xs])] @
           map (\<lambda>(r, m). FindingObj r m e) xs"
  using assms
proof (induction kvs arbitrary: g as xs)
  case Nil
  then have "xs = []" by simp
  moreover have "g[f := FindingsObj as] = g"
    using Nil.prems(1,2) by (metis list_update_id)
  ultimately show ?case by simp
next
  case (Cons kv kvs)
  obtain r m where kv: "kv = (r, m)" by (cases kv)
  from Cons.prems kv have m: "m < f" and rest: "\<forall>m \<in> set (map snd kvs). m < f" by auto
  from Cons.prems(4) kv obtain b xs' where
    b: "contains_at g m w = Inr b" and xs': "scan g w kvs = Inr xs'"
    and xs: "xs = (if b then (r, m) # xs' else xs')"
    by (auto split: sum.splits)
  show ?case
  proof (cases b)
    case False
    with b kv xs Cons.IH [OF Cons.prems(1,2) rest xs'] show ?thesis by simp
  next
    case True
    let ?F = "FindingObj r m e"
    let ?g2 = "append_ref (g @ [?F]) f (length g)"
    have g2: "?g2 = (g @ [?F])[f := FindingsObj (as @ [length g])]"
      using Cons.prems(1,2) by (simp add: append_ref_findings nth_append)
    have len: "f < length ?g2" using Cons.prems(1) by simp
    have at: "?g2 ! f = FindingsObj (as @ [length g])"
      using Cons.prems(1) by (simp add: g2)
    have "take f ?g2 = take f g"
      using Cons.prems(1) by (simp add: take_append_ref)
    then have sc: "scan ?g2 w kvs = Inr xs'"
      using scan_take [OF rest, of ?g2 w] scan_take [OF rest, of g w] len Cons.prems(1) xs'
      by simp
    have "snd (audit_loop_heap w e f kvs ?g2) =
            ?g2[f := FindingsObj ((as @ [length g]) @ [length ?g2 ..< length ?g2 + length xs'])] @
            map (\<lambda>(r, m). FindingObj r m e) xs'"
      by (rule Cons.IH [OF len at rest sc])
    also have "\<dots> =
            g[f := FindingsObj (as @ [length g ..< length g + length xs])] @
            map (\<lambda>(r, m). FindingObj r m e) xs"
    proof -
      have idx: "(as @ [length g]) @ [length ?g2 ..< length ?g2 + length xs'] =
                 as @ [length g ..< length g + length xs]"
        using True xs by (simp add: upt_shift del: upt_Suc)
      have "?g2[f := FindingsObj (as @ [length g ..< length g + length xs])] =
            g[f := FindingsObj (as @ [length g ..< length g + length xs])] @ [?F]"
        using Cons.prems(1) by (simp add: g2 list_update_append1 del: upt_Suc)
      then show ?thesis
        using True xs by (simp only: idx) simp
    qed
    finally show ?thesis
      using True b kv by (simp add: alloc_def)
  qed
qed

lemma prefix_nth: "prefix h g \<Longrightarrow> a < length h \<Longrightarrow> g ! a = h ! a"
  by (auto simp: prefix_def nth_append)

lemma prefix_deref: "prefix h g \<Longrightarrow> a < length h \<Longrightarrow> deref g a = deref h a"
  using prefix_length_le [of h g] by (simp add: deref_def prefix_nth)

lemma getattr_bindings_at_bound:
  assumes "closed h" and "p < length h"
  shows "getattr_bindings_at h p p < length h"
proof (cases "h ! p")
  case (InstanceObj cls attrs)
  show ?thesis
  proof (cases "map_of attrs ''bindings''")
    case None
    with InstanceObj assms show ?thesis by (simp add: getattr_bindings_at_def deref_def)
  next
    case (Some v)
    then have "(''bindings'', v) \<in> set attrs" by (rule map_of_SomeD)
    then have "v \<in> snd ` set attrs" by force
    then have "v \<in> set (refs (h ! p))"
      using InstanceObj by simp
    then have "v < length h" by (rule closed_refs [OF assms])
    with Some InstanceObj assms show ?thesis by (simp add: getattr_bindings_at_def deref_def)
  qed
qed (use assms in \<open>simp_all add: getattr_bindings_at_def deref_def\<close>)

lemma getattr_bindings_at_prefix:
  "prefix h g \<Longrightarrow> p < length h \<Longrightarrow> getattr_bindings_at g p d = getattr_bindings_at h p d"
  by (simp add: getattr_bindings_at_def prefix_deref)

lemma items_at_prefix:
  assumes "closed h" and "b < length h" and "prefix h g"
  shows "items_at g b = items_at h b"
proof -
  have gb: "deref g b = Some (h ! b)" and hb: "deref h b = Some (h ! b)"
    using assms(2) prefix_deref [OF assms(3,2)] by (simp_all add: deref_def)
  show ?thesis
  proof (cases "h ! b")
    case (InstanceObj cls attrs)
    show ?thesis
    proof (cases "map_of attrs ''items''")
      case None
      with InstanceObj show ?thesis by (simp add: items_at_def gb hb)
    next
      case (Some v)
      then have "(''items'', v) \<in> set attrs" by (rule map_of_SomeD)
      then have "v \<in> snd ` set attrs" by force
      then have "v \<in> set (refs (h ! b))"
        using InstanceObj by simp
      then have v: "v < length h" by (rule closed_refs [OF assms(1,2)])
      have gv: "deref g v = Some (h ! v)" and hv: "deref h v = Some (h ! v)"
        using v prefix_deref [OF assms(3) v] by (simp_all add: deref_def)
      from Some InstanceObj show ?thesis by (simp add: items_at_def gb hb gv hv)
    qed
  qed (simp_all add: items_at_def gb hb)
qed

lemma items_at_bound:
  assumes "closed h" and "items_at h b = Inr kvs"
  shows "\<forall>m \<in> set (map snd kvs). m < length h"
proof -
  from assms(2) have b: "b < length h" and "h ! b = DictObj kvs"
    by (auto simp: items_at_def deref_def split: if_splits obj.splits option.splits)
  then have "set (map snd kvs) = set (refs (h ! b))" by simp
  then show ?thesis using closed_refs [OF assms(1) b] by blast
qed

lemma outcome_prefix:
  assumes "closed h" and "p < length h" and "prefix h g"
  shows "outcome g p w = outcome h p w"
proof -
  let ?b = "getattr_bindings_at h p p"
  have b: "?b < length h" by (rule getattr_bindings_at_bound [OF assms(1,2)])
  have eq: "items_at g (getattr_bindings_at g p p) = items_at h ?b"
    by (simp add: getattr_bindings_at_prefix [OF assms(3,2)] items_at_prefix [OF assms(1) b assms(3)])
  show ?thesis
  proof (cases "items_at h ?b")
    case (Inl e)
    with eq show ?thesis by (simp add: outcome_def)
  next
    case (Inr kvs)
    have "scan g w kvs = scan h w kvs"
      by (rule scan_prefix [OF items_at_bound [OF assms(1) Inr] assms(3)])
    with eq Inr show ?thesis by (simp add: outcome_def)
  qed
qed

lemma scan_subset: "scan h w kvs = Inr xs \<Longrightarrow> set xs \<subseteq> set kvs"
proof (induction kvs arbitrary: xs)
  case Nil
  then show ?case by simp
next
  case (Cons kv kvs)
  obtain r m where kv: "kv = (r, m)" by (cases kv)
  from Cons.prems kv obtain b xs' where xs': "scan h w kvs = Inr xs'"
    and xs: "xs = (if b then (r, m) # xs' else xs')"
    by (auto split: sum.splits)
  from Cons.IH [OF xs'] xs kv show ?case by auto
qed

lemma outcome_bound:
  assumes "closed h" and "outcome h p w = Inr xs"
  shows "\<forall>m \<in> set (map snd xs). m < length h"
proof -
  from assms(2) obtain kvs where kvs: "items_at h (getattr_bindings_at h p p) = Inr kvs"
    and sc: "scan h w kvs = Inr xs"
    by (auto simp: outcome_def split: sum.splits)
  with scan_subset [OF sc] items_at_bound [OF assms(1) kvs] show ?thesis by auto
qed

lemma audit_policy_heap_facts:
  assumes "closed h" and "p < length h"
  shows "fst (audit_policy_heap h p w t) = map_sum id (\<lambda>xs. length h) (outcome h p w) \<and>
         prefix h (snd (audit_policy_heap h p w t)) \<and>
         closed (snd (audit_policy_heap h p w t)) \<and>
         length h < length (snd (audit_policy_heap h p w t)) \<and>
         (\<forall>xs. outcome h p w = Inr xs \<longrightarrow>
            snd (audit_policy_heap h p w t) =
              h @ [FindingsObj [Suc (length h) ..< Suc (length h) + length xs]] @
              map (\<lambda>(r, m). FindingObj r m (map_of EXPECTED_ROLES t)) xs)"
proof -
  let ?g = "h @ [FindingsObj []]"
  let ?f = "length h"
  let ?e = "map_of EXPECTED_ROLES t"
  let ?b = "getattr_bindings_at h p p"
  have pre: "prefix h ?g" by simp
  have cg: "closed ?g" using assms(1) by (intro closed_append) simp_all
  have b: "?b < length h" by (rule getattr_bindings_at_bound [OF assms])
  have items: "items_at ?g (getattr_bindings_at ?g p p) = items_at h ?b"
    by (simp only: getattr_bindings_at_prefix [OF pre assms(2)] items_at_prefix [OF assms(1) b pre])
  show ?thesis
  proof (cases "items_at h ?b")
    case (Inl err)
    have run: "audit_policy_heap h p w t = (Inl err, ?g)"
      using items Inl by (simp add: audit_policy_heap_def alloc_def Let_def)
    have "outcome h p w = Inl err" using Inl by (simp add: outcome_def)
    then show ?thesis using cg by (simp add: run)
  next
    case (Inr kvs)
    let ?run = "audit_loop_heap w ?e ?f kvs ?g"
    have bound: "\<forall>m \<in> set (map snd kvs). m < ?f"
      by (rule items_at_bound [OF assms(1) Inr])
    have f: "?f < length ?g" by simp
    have sc: "scan ?g w kvs = scan h w kvs"
      by (rule scan_prefix [OF bound pre])
    have out: "outcome h p w = scan h w kvs" using Inr by (simp add: outcome_def)
    have res: "fst ?run = map_sum id (\<lambda>xs. ()) (scan h w kvs)"
      using audit_loop_heap_result [OF f bound, of w ?e] sc by simp
    have frame: "take ?f (snd ?run) = h" and len: "length ?g \<le> length (snd ?run)"
      using audit_loop_heap_frame [OF f, of w ?e kvs] by simp_all
    have run: "audit_policy_heap h p w t =
                 (case fst ?run of Inl e \<Rightarrow> Inl e | Inr u \<Rightarrow> Inr ?f, snd ?run)"
      using items Inr
      by (simp add: audit_policy_heap_def alloc_def Let_def split: prod.splits sum.splits)
    have 1: "fst (audit_policy_heap h p w t) = map_sum id (\<lambda>xs. length h) (outcome h p w)"
      using res by (cases "scan h w kvs") (simp_all add: run out)
    have 2: "prefix h (snd (audit_policy_heap h p w t))"
      using frame by (simp add: run) (metis take_is_prefix)
    have "\<forall>m \<in> set (map snd kvs). m < length ?g" using bound by auto
    from audit_loop_heap_closed [OF cg this, of w ?e ?f]
    have 3: "closed (snd (audit_policy_heap h p w t))" by (simp add: run)
    have 4: "length h < length (snd (audit_policy_heap h p w t))"
      using len by (simp add: run)
    have 5: "snd (audit_policy_heap h p w t) =
             h @ [FindingsObj [Suc (length h) ..< Suc (length h) + length xs]] @
             map (\<lambda>(r, m). FindingObj r m (map_of EXPECTED_ROLES t)) xs"
      if "outcome h p w = Inr xs" for xs
    proof -
      from that have "scan ?g w kvs = Inr xs" by (simp add: out sc)
      from audit_loop_heap_success [OF f _ bound this, of "[]" ?e]
      show ?thesis by (simp add: run del: upt_Suc)
    qed
    from 1 2 3 4 5 show ?thesis by blast
  qed
qed

lemma findings_view_of_run:
  assumes pre: "prefix (h @ [FindingsObj [Suc (length h) ..< Suc (length h) + length xs]] @
                        map (\<lambda>(r, m). FindingObj r m e) xs) H"
      and bound: "\<forall>m \<in> set (map snd xs). m < length h"
  shows "findings_view H (length h) = map (\<lambda>(r, m). Some (r, Some (h ! m), e)) xs"
proof -
  let ?n = "length h"
  let ?idx = "[Suc ?n ..< Suc ?n + length xs]"
  let ?G = "h @ [FindingsObj ?idx] @ map (\<lambda>(r, m). FindingObj r m e) xs"
  have lenG: "length ?G = Suc ?n + length xs" by simp
  have at_n: "deref H ?n = Some (FindingsObj ?idx)"
    using prefix_deref [OF pre, of ?n] by (simp add: deref_def nth_append del: upt_Suc)
  have old: "deref H m = Some (h ! m)" if "m < ?n" for m
  proof -
    have "deref H m = deref ?G m"
      using that by (intro prefix_deref [OF pre]) simp
    also have "\<dots> = Some (h ! m)"
      using that by (simp add: deref_def nth_append del: upt_Suc)
    finally show ?thesis .
  qed
  have new: "finding_view H (Suc ?n + i) = (\<lambda>(r, m). Some (r, Some (h ! m), e)) (xs ! i)"
    if i: "i < length xs" for i
  proof -
    obtain r m where rm: "xs ! i = (r, m)" by (cases "xs ! i")
    with i bound have m: "m < ?n"
      by (metis nth_mem image_eqI set_map snd_conv)
    have "deref H (Suc ?n + i) = deref ?G (Suc ?n + i)"
      using i by (intro prefix_deref [OF pre]) simp
    also have "\<dots> = Some (FindingObj r m e)"
      using i rm by (simp add: deref_def nth_append del: upt_Suc)
    finally show ?thesis
      using rm old [OF m] by (simp add: finding_view_def)
  qed
  have "map (finding_view H) ?idx = map (\<lambda>(r, m). Some (r, Some (h ! m), e)) xs"
  proof (rule nth_equalityI)
    show "length (map (finding_view H) ?idx) =
          length (map (\<lambda>(r, m). Some (r, Some (h ! m), e)) xs)"
      by (simp del: upt_Suc)
  next
    fix i
    assume "i < length (map (finding_view H) ?idx)"
    then have i: "i < length xs" by (simp del: upt_Suc)
    then have "map (finding_view H) ?idx ! i = finding_view H (Suc ?n + i)"
      by (simp del: upt_Suc)
    with new [OF i] i
    show "map (finding_view H) ?idx ! i = map (\<lambda>(r, m). Some (r, Some (h ! m), e)) xs ! i"
      by simp
  qed
  with at_n show ?thesis by (simp add: findings_view_def del: upt_Suc)
qed

lemma scan_bindings_of:
  "bindings_of h kvs = Some bs \<Longrightarrow>
   \<exists>xs. scan h w kvs = Inr xs \<and>
        map (\<lambda>(r, m). Some (r, Some (h ! m), e)) xs =
        map finding_shown (map (finding_of e) (filter (\<lambda>b. w \<in> set (snd b)) bs))"
proof (induction kvs arbitrary: bs)
  case Nil
  then show ?case by simp
next
  case (Cons kv kvs)
  obtain r m where kv: "kv = (r, m)" by (cases kv)
  from Cons.prems kv obtain ms bs' where m: "deref h m = Some (ListObj ms)"
    and bs': "bindings_of h kvs = Some bs'" and bs: "bs = (r, ms) # bs'"
    by (auto split: option.splits obj.splits)
  from m have hm: "h ! m = ListObj ms"
    by (simp add: deref_def split: if_splits)
  from Cons.IH [OF bs'] obtain xs where xs: "scan h w kvs = Inr xs"
    and eq: "map (\<lambda>(r, m). Some (r, Some (h ! m), e)) xs =
             map finding_shown (map (finding_of e) (filter (\<lambda>b. w \<in> set (snd b)) bs'))"
    by blast
  have c: "contains_at h m w = Inr (w \<in> set ms)"
    using m by (simp add: contains_at_def)
  show ?case
    using kv xs eq c bs hm by (simp add: finding_shown_def finding_of_def)
qed

lemma audit_policy_heap_refines:
  assumes "closed h" and "policy < length h" and "h ! policy = DictObj kvs"
      and "bindings_of h kvs = Some bs"
  shows "\<exists>f h' fs. audit_policy_heap h policy w t = (Inr f, h') \<and>
                   audit_policy (Mapping bs) w t = Inr fs \<and>
                   findings_view h' f = map finding_shown fs"
proof -
  let ?e = "map_of EXPECTED_ROLES t"
  have items: "items_at h (getattr_bindings_at h policy policy) = Inr kvs"
    using assms(2,3) by (simp add: getattr_bindings_at_def items_at_def deref_def)
  from scan_bindings_of [OF assms(4), of w ?e] obtain xs where xs: "scan h w kvs = Inr xs"
    and eq: "map (\<lambda>(r, m). Some (r, Some (h ! m), ?e)) xs =
             map finding_shown (map (finding_of ?e) (filter (\<lambda>b. w \<in> set (snd b)) bs))"
    by blast
  have out: "outcome h policy w = Inr xs"
    using items xs by (simp add: outcome_def)
  obtain r h' where run: "audit_policy_heap h policy w t = (r, h')"
    by (cases "audit_policy_heap h policy w t")
  from audit_policy_heap_facts [OF assms(1,2), of w t] run out
  have r: "r = Inr (length h)"
    and h': "h' = h @ [FindingsObj [Suc (length h) ..< Suc (length h) + length xs]] @
                  map (\<lambda>(r, m). FindingObj r m ?e) xs"
    by simp_all
  have "prefix (h @ [FindingsObj [Suc (length h) ..< Suc (length h) + length xs]] @
                map (\<lambda>(r, m). FindingObj r m ?e) xs) h'"
    using h' by simp
  from findings_view_of_run [OF this outcome_bound [OF assms(1) out]] eq
  have "findings_view h' (length h) =
          map finding_shown (map (finding_of ?e) (filter (\<lambda>b. w \<in> set (snd b)) bs))"
    by simp
  with run r audit_policy_Mapping [of bs w t] show ?thesis by simp
qed

text \<open>
  C7. Two calls of \<open>audit_policy\<close>, one after the other, on the same policy object,
  writer identity and destination type, in a heap where every reference is live. Each
  call leaves every object that existed before it as it was and only adds objects of its
  own. When the first call raises, the second raises the same error. When it returns a
  findings list, the second returns another list object, and read off the heap the two
  lists show the same findings in the same order; the first list still shows what it
  showed.
\<close>

theorem audit_policy_heap_idempotent:
  assumes "closed h" and "policy < length h"
      and "audit_policy_heap h policy w t = (r1, h1)"
      and "audit_policy_heap h1 policy w t = (r2, h2)"
  shows "prefix h h1 \<and> prefix h1 h2 \<and>
         (case r1 of
            Inl e \<Rightarrow> r2 = Inl e
          | Inr f1 \<Rightarrow>
              (\<exists>f2. r2 = Inr f2 \<and> f2 \<noteq> f1 \<and>
                    findings_view h2 f2 = findings_view h1 f1 \<and>
                    findings_view h2 f1 = findings_view h1 f1))"
proof -
  let ?e = "map_of EXPECTED_ROLES t"
  let ?F = "\<lambda>(r, m). FindingObj r m ?e"
  from audit_policy_heap_facts [OF assms(1,2), of w t] assms(3)
  have r1: "r1 = map_sum id (\<lambda>xs. length h) (outcome h policy w)"
    and p1: "prefix h h1" and c1: "closed h1" and l1: "length h < length h1"
    and s1: "\<And>xs. outcome h policy w = Inr xs \<Longrightarrow>
               h1 = h @ [FindingsObj [Suc (length h) ..< Suc (length h) + length xs]] @ map ?F xs"
    by simp_all
  have pol1: "policy < length h1" using assms(2) l1 by simp
  have same: "outcome h1 policy w = outcome h policy w"
    by (rule outcome_prefix [OF assms(1,2) p1])
  from audit_policy_heap_facts [OF c1 pol1, of w t] assms(4) same
  have r2: "r2 = map_sum id (\<lambda>xs. length h1) (outcome h policy w)"
    and p2: "prefix h1 h2"
    and s2: "\<And>xs. outcome h policy w = Inr xs \<Longrightarrow>
               h2 = h1 @ [FindingsObj [Suc (length h1) ..< Suc (length h1) + length xs]] @ map ?F xs"
    by simp_all
  have "case r1 of
          Inl e \<Rightarrow> r2 = Inl e
        | Inr f1 \<Rightarrow>
            (\<exists>f2. r2 = Inr f2 \<and> f2 \<noteq> f1 \<and>
                  findings_view h2 f2 = findings_view h1 f1 \<and>
                  findings_view h2 f1 = findings_view h1 f1)"
  proof (cases "outcome h policy w")
    case (Inl err)
    with r1 r2 show ?thesis by simp
  next
    case (Inr xs)
    have bound: "\<forall>m \<in> set (map snd xs). m < length h"
      by (rule outcome_bound [OF assms(1) Inr])
    then have bound1: "\<forall>m \<in> set (map snd xs). m < length h1"
      using l1 by auto
    have g1: "prefix (h @ [FindingsObj [Suc (length h) ..< Suc (length h) + length xs]] @
                      map ?F xs) h1"
      using s1 [OF Inr] by simp
    then have g12: "prefix (h @ [FindingsObj [Suc (length h) ..< Suc (length h) + length xs]] @
                      map ?F xs) h2"
      using p2 by (rule prefix_order.trans)
    have g2: "prefix (h1 @ [FindingsObj [Suc (length h1) ..< Suc (length h1) + length xs]] @
                      map ?F xs) h2"
      using s2 [OF Inr] by simp
    have v1: "findings_view h1 (length h) = map (\<lambda>(r, m). Some (r, Some (h ! m), ?e)) xs"
      by (rule findings_view_of_run [OF g1 bound])
    have v12: "findings_view h2 (length h) = map (\<lambda>(r, m). Some (r, Some (h ! m), ?e)) xs"
      by (rule findings_view_of_run [OF g12 bound])
    have "findings_view h2 (length h1) = map (\<lambda>(r, m). Some (r, Some (h1 ! m), ?e)) xs"
      by (rule findings_view_of_run [OF g2 bound1])
    also have "\<dots> = map (\<lambda>(r, m). Some (r, Some (h ! m), ?e)) xs"
    proof (rule map_cong [OF refl])
      fix x assume x: "x \<in> set xs"
      obtain r m where rm: "x = (r, m)" by (cases x)
      with x bound have "m < length h" by force
      then have "h1 ! m = h ! m" by (rule prefix_nth [OF p1])
      with rm show "(\<lambda>(r, m). Some (r, Some (h1 ! m), ?e)) x =
                    (\<lambda>(r, m). Some (r, Some (h ! m), ?e)) x"
        by simp
    qed
    finally have v2: "findings_view h2 (length h1) = findings_view h1 (length h)"
      using v1 by simp
    from Inr r1 r2 l1 v1 v12 v2 show ?thesis by simp
  qed
  with p1 p2 show ?thesis by simp
qed

theorem audit_policy_heap_idempotent_witness:
  "closed [ListObj [''w'', ''x''], ListObj [''x''], DictObj [(''roles/a'', 0), (''roles/b'', 1)]] \<and>
   (2 :: nat) < length [ListObj [''w'', ''x''], ListObj [''x''],
                        DictObj [(''roles/a'', 0), (''roles/b'', 1)]] \<and>
   audit_policy_heap
     [ListObj [''w'', ''x''], ListObj [''x''], DictObj [(''roles/a'', 0), (''roles/b'', 1)]]
     2 ''w'' STORAGE =
   (Inr 3,
    [ListObj [''w'', ''x''], ListObj [''x''], DictObj [(''roles/a'', 0), (''roles/b'', 1)],
     FindingsObj [4], FindingObj ''roles/a'' 0 (Some ''roles/storage.objectCreator'')]) \<and>
   audit_policy_heap
     [ListObj [''w'', ''x''], ListObj [''x''], DictObj [(''roles/a'', 0), (''roles/b'', 1)],
      FindingsObj [4], FindingObj ''roles/a'' 0 (Some ''roles/storage.objectCreator'')]
     2 ''w'' STORAGE =
   (Inr 5,
    [ListObj [''w'', ''x''], ListObj [''x''], DictObj [(''roles/a'', 0), (''roles/b'', 1)],
     FindingsObj [4], FindingObj ''roles/a'' 0 (Some ''roles/storage.objectCreator''),
     FindingsObj [6], FindingObj ''roles/a'' 0 (Some ''roles/storage.objectCreator'')]) \<and>
   findings_view
     [ListObj [''w'', ''x''], ListObj [''x''], DictObj [(''roles/a'', 0), (''roles/b'', 1)],
      FindingsObj [4], FindingObj ''roles/a'' 0 (Some ''roles/storage.objectCreator''),
      FindingsObj [6], FindingObj ''roles/a'' 0 (Some ''roles/storage.objectCreator'')] 5 =
   [Some (''roles/a'', Some (ListObj [''w'', ''x'']), Some ''roles/storage.objectCreator'')] \<and>
   findings_view
     [ListObj [''w'', ''x''], ListObj [''x''], DictObj [(''roles/a'', 0), (''roles/b'', 1)],
      FindingsObj [4], FindingObj ''roles/a'' 0 (Some ''roles/storage.objectCreator'')] 3 =
   [Some (''roles/a'', Some (ListObj [''w'', ''x'']), Some ''roles/storage.objectCreator'')]"
  using audit_policy_heap_idempotent
          [of "[ListObj [''w'', ''x''], ListObj [''x''],
                DictObj [(''roles/a'', 0), (''roles/b'', 1)]]"
              2 "''w''" STORAGE "Inr 3"
              "[ListObj [''w'', ''x''], ListObj [''x''], DictObj [(''roles/a'', 0), (''roles/b'', 1)],
                FindingsObj [4], FindingObj ''roles/a'' 0 (Some ''roles/storage.objectCreator'')]"
              "Inr 5"
              "[ListObj [''w'', ''x''], ListObj [''x''], DictObj [(''roles/a'', 0), (''roles/b'', 1)],
                FindingsObj [4], FindingObj ''roles/a'' 0 (Some ''roles/storage.objectCreator''),
                FindingsObj [6], FindingObj ''roles/a'' 0 (Some ''roles/storage.objectCreator'')]"]
  by (simp add: closed_def audit_policy_heap_def alloc_def getattr_bindings_at_def deref_def
                items_at_def contains_at_def append_ref_def EXPECTED_ROLES_def BIGQUERY_def
                STORAGE_def findings_view_def finding_view_def)

section \<open>Properties of the runs\<close>

lemma fetches_bind_io:
  "fetches (bind_io m f) =
     (case snd m of Inl e \<Rightarrow> fetches m | Inr x \<Rightarrow> fetches m @ fetches (f x))"
  by (cases m; cases "snd m") (auto simp: fetches_def bind_io_def split: prod.splits)

lemma fetches_simple [simp]:
  "fetches (print l) = []"
  "fetches (lift_io r) = []"
  "fetches (return_io x) = []"
  "fetches (raise_io e) = []"
  "fetches (construct c cls) = []"
  by (simp_all add: fetches_def print_def lift_io_def return_io_def raise_io_def construct_def)

lemma fetches_report [simp]: "fetches (report fs) = []"
  by (simp add: fetches_def report_def print_def filter_empty_conv)

lemma fetches_report_v1 [simp]: "fetches (report_v1 ps) = []"
  by (auto simp: fetches_def report_v1_def print_def filter_empty_conv)

lemma fetches_try_main [simp]: "fetches (try_main m) = fetches m"
  by (cases m; cases "snd m") (auto simp: fetches_def try_main_def)

lemma fetches_except_NotFound [simp]: "fetches (except_NotFound msg m) = fetches m"
  by (cases m) (auto simp: fetches_def except_NotFound_def split: sum.splits error.splits)

lemma snd_construct [simp]: "snd (construct c cls) = new_client c cls"
  by (simp add: construct_def)

lemma fetches_get_bigquery_policy:
  "fetches (get_bigquery_policy c r) =
     (if new_client c ''bigquery.Client'' = Inr () then [FetchDataset r] else [])"
  by (cases "new_client c ''bigquery.Client''")
     (simp_all add: get_bigquery_policy_def fetches_bind_io, simp add: fetches_def)

lemma fetches_get_storage_policy:
  "fetches (get_storage_policy c r) =
     (if new_client c ''storage.Client'' = Inr () then [FetchBucket r] else [])"
  by (cases "new_client c ''storage.Client''")
     (simp_all add: get_storage_policy_def fetches_bind_io, simp add: fetches_def)

lemma fetches_get_pubsub_policy:
  "fetches (get_pubsub_policy c r pid) =
     (if new_client c ''pubsub_v1.PublisherClient'' = Inr () then [FetchTopic pid r] else [])"
  by (cases "new_client c ''pubsub_v1.PublisherClient''")
     (simp_all add: get_pubsub_policy_def fetches_bind_io, simp add: fetches_def)

lemma get_writer_identity_ok:
  assumes "new_client c ''logging_v2.Client'' = Inr ()"
      and "sink_reload c proj sink = Inr (w, dest)"
  shows "get_writer_identity c sink proj =
           ([NewClient ''logging_v2.Client'', SinkReload proj sink], Inr (w, dest))"
  using assms
  by (simp add: get_writer_identity_def bind_io_def construct_def except_NotFound_def)

lemma bind_io_Inr: "m = (ev, Inr x) \<Longrightarrow> bind_io m f = (ev @ fst (f x), snd (f x))"
  by (simp add: bind_io_def split: prod.splits)

lemma bind_io_Inl: "m = (ev, Inl e) \<Longrightarrow> bind_io m f = (ev, Inl e)"
  by (simp add: bind_io_def)

lemma snd_bind_io:
  "snd (bind_io m f) = (case snd m of Inl e \<Rightarrow> Inl e | Inr x \<Rightarrow> snd (f x))"
  by (cases m; cases "snd m") (auto simp: bind_io_def split: prod.splits)

lemma main_after_parse:
  assumes "new_client c ''logging_v2.Client'' = Inr ()"
      and "sink_reload c proj sink = Inr (w, dest)"
      and "get_destination_info dest = Inr (t, r, dp)"
  shows "main c sink proj =
           try_main
             (bind_io
                ([NewClient ''logging_v2.Client'', SinkReload proj sink,
                  Print (''Writer Identity: '' @ w), Print (''Destination: '' @ dest)],
                 Inr ())
                (\<lambda>u. bind_io (main_dispatch c t r (or_else dp proj)) (\<lambda>policy.
                      bind_io (lift_io (audit_policy policy w t)) report)))"
  using assms
  by (simp add: main_def get_writer_identity_ok [OF assms(1,2)] bind_io_def print_def lift_io_def
           split: prod.splits)

lemma main_fetches:
  assumes "new_client c ''logging_v2.Client'' = Inr ()"
      and "sink_reload c proj sink = Inr (w, dest)"
      and "get_destination_info dest = Inr (t, r, dp)"
  shows "fetches (main c sink proj) = fetches (main_dispatch c t r (or_else dp proj))"
  by (simp add: main_after_parse [OF assms] fetches_bind_io split: sum.splits)
     (simp add: fetches_def)

lemma fetches_main_dispatch:
  "fetches (main_dispatch c t r pid) =
     (if prefix BIGQUERY t
      then (if new_client c ''bigquery.Client'' = Inr () then [FetchDataset r] else [])
      else if prefix STORAGE t
      then (if new_client c ''storage.Client'' = Inr () then [FetchBucket r] else [])
      else if prefix PUBSUB t
      then (if new_client c ''pubsub_v1.PublisherClient'' = Inr () then [FetchTopic pid r] else [])
      else [])"
  by (simp add: main_dispatch_def fetches_get_bigquery_policy fetches_get_storage_policy
                fetches_get_pubsub_policy)

lemma main_unsupported:
  assumes "new_client c ''logging_v2.Client'' = Inr ()"
      and "sink_reload c proj sink = Inr (w, dest)"
      and "get_destination_info dest = Inr (t, r, dp)"
      and "\<not> prefix BIGQUERY t" and "\<not> prefix STORAGE t" and "\<not> prefix PUBSUB t"
  shows "main c sink proj =
           ([NewClient ''logging_v2.Client'', SinkReload proj sink,
             Print (''Writer Identity: '' @ w), Print (''Destination: '' @ dest)],
            Inl (SystemExit (''Error: Unsupported destination type: '' @ t)))"
  using assms(4-6)
  by (simp add: main_after_parse [OF assms(1-3)] main_dispatch_def bind_io_def raise_io_def
                try_main_def)

lemma get_writer_identity_v1_ok:
  assumes "new_client c ''logging.Client'' = Inr ()"
      and "sink_reload c proj sink = Inr (w, dest)"
  shows "get_writer_identity_v1 c sink proj =
           ([NewClient ''logging.Client'', SinkReload proj sink], Inr (w, dest))"
  using assms by (simp add: get_writer_identity_v1_def bind_io_def construct_def)

lemma project_id_unbound:
  "lookup_name [(''topic_name'', StrVal topic), (''client'', ClientVal)] ''project_id'' =
     Inl (NameError (''name '' @ quoted ''project_id'' @ '' is not defined''))"
  by (simp add: lookup_name_def module_globals_v1_def)

lemma get_pubsub_policy_v1_fails:
  "get_pubsub_policy_v1 c topic =
     ([NewClient ''pubsub_v1.PublisherClient''],
      case new_client c ''pubsub_v1.PublisherClient'' of
        Inl e \<Rightarrow> Inl e
      | Inr u \<Rightarrow> Inl (NameError (''name '' @ quoted ''project_id'' @ '' is not defined'')))"
  by (cases "new_client c ''pubsub_v1.PublisherClient''")
     (simp_all add: get_pubsub_policy_v1_def project_id_unbound bind_io_def construct_def
                    lift_io_def)

lemma fetches_get_bigquery_policy_v1:
  "fetches (get_bigquery_policy_v1 c r) =
     (if new_client c ''bigquery.Client'' = Inr () then [FetchDataset r] else [])"
  by (cases "new_client c ''bigquery.Client''")
     (simp_all add: get_bigquery_policy_v1_def fetches_bind_io, simp add: fetches_def)

lemma fetches_get_storage_policy_v1:
  "fetches (get_storage_policy_v1 c r) =
     (if new_client c ''storage.Client'' = Inr () then [FetchBucket r] else [])"
  by (cases "new_client c ''storage.Client''")
     (simp_all add: get_storage_policy_v1_def fetches_bind_io, simp add: fetches_def)

lemma fetches_get_pubsub_policy_v1: "fetches (get_pubsub_policy_v1 c topic) = []"
  by (simp add: get_pubsub_policy_v1_fails fetches_def)

lemma literal_prefix_neq:
  "prefix ''bigquery.googleapis.com'' t \<Longrightarrow>
     \<not> prefix ''storage.googleapis.com'' t \<and> \<not> prefix ''pubsub.googleapis.com'' t"
  "prefix ''storage.googleapis.com'' t \<Longrightarrow>
     \<not> prefix ''bigquery.googleapis.com'' t \<and> \<not> prefix ''pubsub.googleapis.com'' t"
  "prefix ''pubsub.googleapis.com'' t \<Longrightarrow>
     \<not> prefix ''bigquery.googleapis.com'' t \<and> \<not> prefix ''storage.googleapis.com'' t"
  using prefix_neq [of t] by (simp_all add: BIGQUERY_def STORAGE_def PUBSUB_def)

lemma main_v1_missing_credentials:
  assumes "getenv_missing environ ''GOOGLE_APPLICATION_CREDENTIALS''"
  shows "main_v1 environ c sink proj =
           ([Print (''Please set the GOOGLE_APPLICATION_CREDENTIALS environment variable '' @
                    ''to your service account key.'')], Inr ())"
  using assms by (simp add: main_v1_def print_def)

lemma main_v1_after_resolve:
  assumes "\<not> getenv_missing environ ''GOOGLE_APPLICATION_CREDENTIALS''"
      and "new_client c ''logging.Client'' = Inr ()"
      and "sink_reload c proj sink = Inr (w, dest)"
  shows "main_v1 environ c sink proj =
     bind_io ([NewClient ''logging.Client'', SinkReload proj sink,
               Print (''Writer Identity: '' @ w), Print (''Destination: '' @ dest)], Inr ())
      (\<lambda>u. bind_io
          (if prefix ''bigquery.googleapis.com'' dest then
             bind_io (get_bigquery_policy_v1 c (last (split CHR ''/'' dest))) (\<lambda>policy.
             bind_io (lift_io (attr_bindings policy)) (\<lambda>b.
             bind_io (lift_io (audit_policy_v1 b w)) (\<lambda>findings.
             return_io (Some findings))))
           else if prefix ''storage.googleapis.com'' dest then
             bind_io (get_storage_policy_v1 c (last (split CHR ''/'' dest))) (\<lambda>policy.
             bind_io (lift_io (audit_policy_v1 policy w)) (\<lambda>findings.
             return_io (Some findings)))
           else if prefix ''pubsub.googleapis.com'' dest then
             bind_io (get_pubsub_policy_v1 c (last (split CHR ''/'' dest))) (\<lambda>policy.
             bind_io (lift_io (attr_bindings policy)) (\<lambda>b.
             bind_io (lift_io (audit_policy_v1 b w)) (\<lambda>findings.
             return_io (Some findings))))
           else
             bind_io (print ''Unsupported destination type.'') (\<lambda>u3. return_io None))
          (\<lambda>outcome. case outcome of
              None \<Rightarrow> return_io ()
            | Some findings \<Rightarrow> report_v1 findings))"
  using assms(1)
  by (simp add: main_v1_def get_writer_identity_v1_ok [OF assms(2,3)] Let_def)
     (simp add: bind_io_def print_def split: prod.splits)

lemma main_v1_fetches:
  assumes "\<not> getenv_missing environ ''GOOGLE_APPLICATION_CREDENTIALS''"
      and "new_client c ''logging.Client'' = Inr ()"
      and "sink_reload c proj sink = Inr (w, dest)"
  shows "fetches (main_v1 environ c sink proj) =
     (if prefix ''bigquery.googleapis.com'' dest
      then (if new_client c ''bigquery.Client'' = Inr ()
            then [FetchDataset (last (split CHR ''/'' dest))] else [])
      else if prefix ''storage.googleapis.com'' dest
      then (if new_client c ''storage.Client'' = Inr ()
            then [FetchBucket (last (split CHR ''/'' dest))] else [])
      else [])"
  by (simp add: main_v1_after_resolve [OF assms] fetches_bind_io
                fetches_get_bigquery_policy_v1 fetches_get_storage_policy_v1
                fetches_get_pubsub_policy_v1
           split: sum.splits option.splits)
     (simp add: fetches_def)

lemma main_v1_unsupported:
  assumes "\<not> getenv_missing environ ''GOOGLE_APPLICATION_CREDENTIALS''"
      and "new_client c ''logging.Client'' = Inr ()"
      and "sink_reload c proj sink = Inr (w, dest)"
      and "\<not> prefix ''bigquery.googleapis.com'' dest"
      and "\<not> prefix ''storage.googleapis.com'' dest"
      and "\<not> prefix ''pubsub.googleapis.com'' dest"
  shows "main_v1 environ c sink proj =
           ([NewClient ''logging.Client'', SinkReload proj sink,
             Print (''Writer Identity: '' @ w), Print (''Destination: '' @ dest),
             Print ''Unsupported destination type.''], Inr ())"
  using assms(4-6)
  by (simp add: main_v1_after_resolve [OF assms(1-3)] bind_io_def print_def return_io_def)

lemma main_v1_pubsub:
  assumes "\<not> getenv_missing environ ''GOOGLE_APPLICATION_CREDENTIALS''"
      and "new_client c ''logging.Client'' = Inr ()"
      and "sink_reload c proj sink = Inr (w, dest)"
      and "prefix ''pubsub.googleapis.com'' dest"
  shows "main_v1 environ c sink proj =
           ([NewClient ''logging.Client'', SinkReload proj sink,
             Print (''Writer Identity: '' @ w), Print (''Destination: '' @ dest),
             NewClient ''pubsub_v1.PublisherClient''],
            case new_client c ''pubsub_v1.PublisherClient'' of
              Inl e \<Rightarrow> Inl e
            | Inr u \<Rightarrow> Inl (NameError (''name '' @ quoted ''project_id'' @ '' is not defined'')))"
  using assms(4) literal_prefix_neq(3) [OF assms(4)]
  by (simp add: main_v1_after_resolve [OF assms(1-3)] get_pubsub_policy_v1_fails bind_io_def
           split: sum.splits)

lemma main_starts_with_client:
  "\<exists>evs r. main c sink proj = (NewClient ''logging_v2.Client'' # evs, r)"
proof -
  obtain ev res where g: "get_writer_identity c sink proj = (ev, res)"
    by (cases "get_writer_identity c sink proj")
  have "\<exists>evs. ev = NewClient ''logging_v2.Client'' # evs"
    using g
    by (cases "new_client c ''logging_v2.Client''")
       (auto simp: get_writer_identity_def bind_io_def construct_def except_NotFound_def
             split: sum.splits error.splits prod.splits)
  then obtain evs where ev: "ev = NewClient ''logging_v2.Client'' # evs" ..
  show ?thesis
    by (cases res)
       (auto simp: main_def g ev bind_io_def try_main_def split: prod.splits sum.splits)
qed

lemma calls_bind_io:
  "collaborator_calls (bind_io m f) =
     (case snd m of
        Inl e \<Rightarrow> collaborator_calls m
      | Inr x \<Rightarrow> collaborator_calls m @ collaborator_calls (f x))"
  by (cases m; cases "snd m") (auto simp: collaborator_calls_def bind_io_def split: prod.splits)

lemma calls_bind_quiet:
  "(\<And>x. collaborator_calls (f x) = []) \<Longrightarrow>
   collaborator_calls (bind_io m f) = collaborator_calls m"
  by (cases "snd m") (simp_all add: calls_bind_io)

lemma calls_simple [simp]:
  "collaborator_calls (print l) = []"
  "collaborator_calls (lift_io r) = []"
  "collaborator_calls (return_io x) = []"
  "collaborator_calls (raise_io e) = []"
  by (simp_all add: collaborator_calls_def print_def lift_io_def return_io_def raise_io_def)

lemma calls_report [simp]: "collaborator_calls (report fs) = []"
  by (simp add: collaborator_calls_def report_def print_def filter_empty_conv)

lemma calls_report_v1 [simp]: "collaborator_calls (report_v1 ps) = []"
  by (auto simp: collaborator_calls_def report_v1_def print_def filter_empty_conv)

lemma calls_try_main [simp]: "collaborator_calls (try_main m) = collaborator_calls m"
  by (cases m; cases "snd m") (auto simp: collaborator_calls_def try_main_def)

lemma calls_events:
  "collaborator_calls (bind_io (ev, Inr ()) f) =
     filter is_collaborator_call ev @ collaborator_calls (f ())"
  by (simp add: calls_bind_io) (simp add: collaborator_calls_def)

lemma main_calls:
  assumes "new_client c ''logging_v2.Client'' = Inr ()"
      and "sink_reload c proj sink = Inr (w, dest)"
      and "get_destination_info dest = Inr (t, r, dp)"
  shows "collaborator_calls (main c sink proj) =
           [NewClient ''logging_v2.Client'', SinkReload proj sink] @
           collaborator_calls (main_dispatch c t r (or_else dp proj))"
proof -
  have quiet: "collaborator_calls (bind_io (lift_io (audit_policy policy w t)) report) = []"
    for policy
    by (simp add: calls_bind_quiet)
  show ?thesis
    by (simp add: main_after_parse [OF assms] calls_events calls_bind_quiet quiet)
qed

lemma main_v1_calls:
  assumes "\<not> getenv_missing environ ''GOOGLE_APPLICATION_CREDENTIALS''"
      and "new_client c ''logging.Client'' = Inr ()"
      and "sink_reload c proj sink = Inr (w, dest)"
  shows "collaborator_calls (main_v1 environ c sink proj) =
     [NewClient ''logging.Client'', SinkReload proj sink] @
     (if prefix ''bigquery.googleapis.com'' dest
      then collaborator_calls (get_bigquery_policy_v1 c (last (split CHR ''/'' dest)))
      else if prefix ''storage.googleapis.com'' dest
      then collaborator_calls (get_storage_policy_v1 c (last (split CHR ''/'' dest)))
      else if prefix ''pubsub.googleapis.com'' dest
      then collaborator_calls (get_pubsub_policy_v1 c (last (split CHR ''/'' dest)))
      else [])"
proof -
  have fin: "collaborator_calls
               (case outcome of None \<Rightarrow> return_io () | Some findings \<Rightarrow> report_v1 findings) = []"
    for outcome
    by (cases outcome) simp_all
  have wrapped: "collaborator_calls
                   (bind_io (lift_io (attr_bindings policy)) (\<lambda>b.
                    bind_io (lift_io (audit_policy_v1 b w)) (\<lambda>findings.
                    return_io (Some findings)))) = []"
    for policy
    by (simp add: calls_bind_quiet)
  have raw: "collaborator_calls
               (bind_io (lift_io (audit_policy_v1 policy w)) (\<lambda>findings.
                return_io (Some findings))) = []"
    for policy
    by (simp add: calls_bind_quiet)
  show ?thesis
    by (simp add: main_v1_after_resolve [OF assms] calls_events calls_bind_quiet fin wrapped raw)
qed

text \<open>
  C2, as the code has it. Once the sink is resolved and its destination parsed, the
  dispatch of the Cloud Shell \<open>main\<close> is the retrieval of the first constant that is a
  prefix of the destination type, and no two constants are prefixes of the same type.
  The calls to client libraries that follow the sink lookup are exactly those of that one
  retrieval, with at most one policy request, of its kind. When no constant is a prefix
  the run ends in \<open>sys.exit\<close> with the unsupported-type message and status 1, and
  no retrieval is called. The first implementation tests the raw destination: the calls
  that follow the sink lookup are those of the one retrieval whose constant is a prefix,
  and when none is, the run prints the unsupported-type line, calls no retrieval and
  returns, with status 0.
\<close>

theorem dispatch_one_retrieval_by_prefix:
  assumes "new_client c ''logging_v2.Client'' = Inr ()"
      and "sink_reload c proj sink = Inr (w, dest)"
      and "get_destination_info dest = Inr (t, r, dp)"
  shows "main_dispatch c t r pid =
           (if prefix BIGQUERY t then get_bigquery_policy c r
            else if prefix STORAGE t then get_storage_policy c r
            else if prefix PUBSUB t then get_pubsub_policy c r pid
            else raise_io (SystemExit (''Error: Unsupported destination type: '' @ t))) \<and>
         (prefix BIGQUERY t \<longrightarrow> \<not> prefix STORAGE t \<and> \<not> prefix PUBSUB t) \<and>
         (prefix STORAGE t \<longrightarrow> \<not> prefix PUBSUB t) \<and>
         collaborator_calls (main c sink proj) =
           [NewClient ''logging_v2.Client'', SinkReload proj sink] @
           collaborator_calls (main_dispatch c t r (or_else dp proj)) \<and>
         fetches (main c sink proj) =
           (if prefix BIGQUERY t
            then (if new_client c ''bigquery.Client'' = Inr () then [FetchDataset r] else [])
            else if prefix STORAGE t
            then (if new_client c ''storage.Client'' = Inr () then [FetchBucket r] else [])
            else if prefix PUBSUB t
            then (if new_client c ''pubsub_v1.PublisherClient'' = Inr ()
                  then [FetchTopic (or_else dp proj) r] else [])
            else []) \<and>
         (\<not> prefix BIGQUERY t \<and> \<not> prefix STORAGE t \<and> \<not> prefix PUBSUB t \<longrightarrow>
            main c sink proj =
              ([NewClient ''logging_v2.Client'', SinkReload proj sink,
                Print (''Writer Identity: '' @ w), Print (''Destination: '' @ dest)],
               Inl (SystemExit (''Error: Unsupported destination type: '' @ t))) \<and>
            exit_status (main c sink proj) = 1) \<and>
         (\<not> getenv_missing environ ''GOOGLE_APPLICATION_CREDENTIALS'' \<and>
          new_client c ''logging.Client'' = Inr () \<longrightarrow>
            collaborator_calls (main_v1 environ c sink proj) =
              [NewClient ''logging.Client'', SinkReload proj sink] @
              (if prefix ''bigquery.googleapis.com'' dest
               then collaborator_calls (get_bigquery_policy_v1 c (last (split CHR ''/'' dest)))
               else if prefix ''storage.googleapis.com'' dest
               then collaborator_calls (get_storage_policy_v1 c (last (split CHR ''/'' dest)))
               else if prefix ''pubsub.googleapis.com'' dest
               then collaborator_calls (get_pubsub_policy_v1 c (last (split CHR ''/'' dest)))
               else []) \<and>
            fetches (main_v1 environ c sink proj) =
              (if prefix ''bigquery.googleapis.com'' dest
               then (if new_client c ''bigquery.Client'' = Inr ()
                     then [FetchDataset (last (split CHR ''/'' dest))] else [])
               else if prefix ''storage.googleapis.com'' dest
               then (if new_client c ''storage.Client'' = Inr ()
                     then [FetchBucket (last (split CHR ''/'' dest))] else [])
               else []) \<and>
            (\<not> prefix ''bigquery.googleapis.com'' dest \<and>
             \<not> prefix ''storage.googleapis.com'' dest \<and>
             \<not> prefix ''pubsub.googleapis.com'' dest \<longrightarrow>
               main_v1 environ c sink proj =
                 ([NewClient ''logging.Client'', SinkReload proj sink,
                   Print (''Writer Identity: '' @ w), Print (''Destination: '' @ dest),
                   Print ''Unsupported destination type.''], Inr ()) \<and>
               exit_status (main_v1 environ c sink proj) = 0))"
proof -
  have 1: "main_dispatch c t r pid =
           (if prefix BIGQUERY t then get_bigquery_policy c r
            else if prefix STORAGE t then get_storage_policy c r
            else if prefix PUBSUB t then get_pubsub_policy c r pid
            else raise_io (SystemExit (''Error: Unsupported destination type: '' @ t)))"
    by (simp add: main_dispatch_def)
  have 2: "prefix BIGQUERY t \<longrightarrow> \<not> prefix STORAGE t \<and> \<not> prefix PUBSUB t"
    using prefix_neq(1) [of t] by simp
  have 3: "prefix STORAGE t \<longrightarrow> \<not> prefix PUBSUB t"
    using prefix_neq(2) [of t] by simp
  note 4 = main_calls [OF assms]
  have 5: "fetches (main c sink proj) =
           (if prefix BIGQUERY t
            then (if new_client c ''bigquery.Client'' = Inr () then [FetchDataset r] else [])
            else if prefix STORAGE t
            then (if new_client c ''storage.Client'' = Inr () then [FetchBucket r] else [])
            else if prefix PUBSUB t
            then (if new_client c ''pubsub_v1.PublisherClient'' = Inr ()
                  then [FetchTopic (or_else dp proj) r] else [])
            else [])"
    by (simp only: main_fetches [OF assms] fetches_main_dispatch)
  have 6: "main c sink proj =
              ([NewClient ''logging_v2.Client'', SinkReload proj sink,
                Print (''Writer Identity: '' @ w), Print (''Destination: '' @ dest)],
               Inl (SystemExit (''Error: Unsupported destination type: '' @ t))) \<and>
            exit_status (main c sink proj) = 1"
    if "\<not> prefix BIGQUERY t \<and> \<not> prefix STORAGE t \<and> \<not> prefix PUBSUB t"
    using that main_unsupported [OF assms] by simp
  have 7: "collaborator_calls (main_v1 environ c sink proj) =
              [NewClient ''logging.Client'', SinkReload proj sink] @
              (if prefix ''bigquery.googleapis.com'' dest
               then collaborator_calls (get_bigquery_policy_v1 c (last (split CHR ''/'' dest)))
               else if prefix ''storage.googleapis.com'' dest
               then collaborator_calls (get_storage_policy_v1 c (last (split CHR ''/'' dest)))
               else if prefix ''pubsub.googleapis.com'' dest
               then collaborator_calls (get_pubsub_policy_v1 c (last (split CHR ''/'' dest)))
               else [])"
    and 8: "fetches (main_v1 environ c sink proj) =
              (if prefix ''bigquery.googleapis.com'' dest
               then (if new_client c ''bigquery.Client'' = Inr ()
                     then [FetchDataset (last (split CHR ''/'' dest))] else [])
               else if prefix ''storage.googleapis.com'' dest
               then (if new_client c ''storage.Client'' = Inr ()
                     then [FetchBucket (last (split CHR ''/'' dest))] else [])
               else [])"
    and 9: "\<not> prefix ''bigquery.googleapis.com'' dest \<and>
            \<not> prefix ''storage.googleapis.com'' dest \<and>
            \<not> prefix ''pubsub.googleapis.com'' dest \<longrightarrow>
               main_v1 environ c sink proj =
                 ([NewClient ''logging.Client'', SinkReload proj sink,
                   Print (''Writer Identity: '' @ w), Print (''Destination: '' @ dest),
                   Print ''Unsupported destination type.''], Inr ()) \<and>
               exit_status (main_v1 environ c sink proj) = 0"
    if v1: "\<not> getenv_missing environ ''GOOGLE_APPLICATION_CREDENTIALS'' \<and>
            new_client c ''logging.Client'' = Inr ()"
  proof -
    from v1 have a: "\<not> getenv_missing environ ''GOOGLE_APPLICATION_CREDENTIALS''"
      and b: "new_client c ''logging.Client'' = Inr ()" by simp_all
    show "collaborator_calls (main_v1 environ c sink proj) =
              [NewClient ''logging.Client'', SinkReload proj sink] @
              (if prefix ''bigquery.googleapis.com'' dest
               then collaborator_calls (get_bigquery_policy_v1 c (last (split CHR ''/'' dest)))
               else if prefix ''storage.googleapis.com'' dest
               then collaborator_calls (get_storage_policy_v1 c (last (split CHR ''/'' dest)))
               else if prefix ''pubsub.googleapis.com'' dest
               then collaborator_calls (get_pubsub_policy_v1 c (last (split CHR ''/'' dest)))
               else [])"
      by (rule main_v1_calls [OF a b assms(2)])
    show "fetches (main_v1 environ c sink proj) =
              (if prefix ''bigquery.googleapis.com'' dest
               then (if new_client c ''bigquery.Client'' = Inr ()
                     then [FetchDataset (last (split CHR ''/'' dest))] else [])
               else if prefix ''storage.googleapis.com'' dest
               then (if new_client c ''storage.Client'' = Inr ()
                     then [FetchBucket (last (split CHR ''/'' dest))] else [])
               else [])"
      by (rule main_v1_fetches [OF a b assms(2)])
    show "\<not> prefix ''bigquery.googleapis.com'' dest \<and>
            \<not> prefix ''storage.googleapis.com'' dest \<and>
            \<not> prefix ''pubsub.googleapis.com'' dest \<longrightarrow>
               main_v1 environ c sink proj =
                 ([NewClient ''logging.Client'', SinkReload proj sink,
                   Print (''Writer Identity: '' @ w), Print (''Destination: '' @ dest),
                   Print ''Unsupported destination type.''], Inr ()) \<and>
               exit_status (main_v1 environ c sink proj) = 0"
      using main_v1_unsupported [OF a b assms(2)] by simp
  qed
  from 1 2 3 4 5 6 7 8 9 show ?thesis by blast
qed

lemma sample_collaborators_simps [simp]:
  "new_client (sample_collaborators d p) cls = Inr ()"
  "sink_reload (sample_collaborators d p) proj sink = Inr (''serviceAccount:writer'', d)"
  "bucket_get_iam_policy (sample_collaborators d p) b = Inr p"
  "dataset_get_iam_policy (sample_collaborators d p) ds = Inr p"
  "topic_get_iam_policy (sample_collaborators d p) proj t = Inr p"
  by (simp_all add: sample_collaborators_def)

lemma scenario_destinations:
  "get_destination_info ''unknown.googleapis.com/x'' = Inr (''unknown.googleapis.com'', ''x'', None)"
  "get_destination_info ''storage.googleapis.com/projects/p1/buckets/b1'' =
     Inr (''storage.googleapis.com'', ''b1'', Some ''p1'')"
  "get_destination_info ''pubsub.googleapis.com/t1'' = Inr (''pubsub.googleapis.com'', ''t1'', None)"
  by (simp_all add: get_destination_info_def)

theorem dispatch_one_retrieval_by_prefix_witness:
  "new_client (sample_collaborators ''unknown.googleapis.com/x'' (Mapping [])) ''logging_v2.Client'' =
     Inr () \<and>
   sink_reload (sample_collaborators ''unknown.googleapis.com/x'' (Mapping [])) ''p'' ''s'' =
     Inr (''serviceAccount:writer'', ''unknown.googleapis.com/x'') \<and>
   get_destination_info ''unknown.googleapis.com/x'' = Inr (''unknown.googleapis.com'', ''x'', None) \<and>
   \<not> prefix BIGQUERY ''unknown.googleapis.com'' \<and>
   \<not> prefix STORAGE ''unknown.googleapis.com'' \<and>
   \<not> prefix PUBSUB ''unknown.googleapis.com'' \<and>
   main (sample_collaborators ''unknown.googleapis.com/x'' (Mapping [])) ''s'' ''p'' =
     ([NewClient ''logging_v2.Client'', SinkReload ''p'' ''s'',
       Print ''Writer Identity: serviceAccount:writer'',
       Print ''Destination: unknown.googleapis.com/x''],
      Inl (SystemExit ''Error: Unsupported destination type: unknown.googleapis.com'')) \<and>
   exit_status (main (sample_collaborators ''unknown.googleapis.com/x'' (Mapping [])) ''s'' ''p'') = 1 \<and>
   fetches (main (sample_collaborators ''unknown.googleapis.com/x'' (Mapping [])) ''s'' ''p'') = [] \<and>
   collaborator_calls
     (main (sample_collaborators ''unknown.googleapis.com/x'' (Mapping [])) ''s'' ''p'') =
     [NewClient ''logging_v2.Client'', SinkReload ''p'' ''s''] \<and>
   collaborator_calls
     (main_v1 [(''GOOGLE_APPLICATION_CREDENTIALS'', ''key.json'')]
        (sample_collaborators ''unknown.googleapis.com/x'' (Mapping [])) ''s'' ''p'') =
     [NewClient ''logging.Client'', SinkReload ''p'' ''s'']"
  using dispatch_one_retrieval_by_prefix
          [of "sample_collaborators ''unknown.googleapis.com/x'' (Mapping [])" "''p''" "''s''"
              "''serviceAccount:writer''" "''unknown.googleapis.com/x''"
              "''unknown.googleapis.com''" "''x''" None "''p''"
              "[(''GOOGLE_APPLICATION_CREDENTIALS'', ''key.json'')]"]
  by (simp add: scenario_destinations BIGQUERY_def STORAGE_def PUBSUB_def getenv_missing_def
                fetches_def collaborator_calls_def raise_io_def)

text \<open>
  On an unsupported destination the first implementation does not fail: it prints a line
  and returns, and the process ends with status 0.
\<close>

theorem unsupported_type_v1_returns_counterexample:
  "\<not> getenv_missing [(''GOOGLE_APPLICATION_CREDENTIALS'', ''key.json'')]
        ''GOOGLE_APPLICATION_CREDENTIALS'' \<and>
   \<not> prefix ''bigquery.googleapis.com'' ''unknown.googleapis.com/x'' \<and>
   \<not> prefix ''storage.googleapis.com'' ''unknown.googleapis.com/x'' \<and>
   \<not> prefix ''pubsub.googleapis.com'' ''unknown.googleapis.com/x'' \<and>
   main_v1 [(''GOOGLE_APPLICATION_CREDENTIALS'', ''key.json'')]
     (sample_collaborators ''unknown.googleapis.com/x'' (Mapping [])) ''s'' ''p'' =
     ([NewClient ''logging.Client'', SinkReload ''p'' ''s'',
       Print ''Writer Identity: serviceAccount:writer'',
       Print ''Destination: unknown.googleapis.com/x'',
       Print ''Unsupported destination type.''], Inr ()) \<and>
   exit_status
     (main_v1 [(''GOOGLE_APPLICATION_CREDENTIALS'', ''key.json'')]
        (sample_collaborators ''unknown.googleapis.com/x'' (Mapping [])) ''s'' ''p'') = 0"
proof -
  have a: "\<not> getenv_missing [(''GOOGLE_APPLICATION_CREDENTIALS'', ''key.json'')]
              ''GOOGLE_APPLICATION_CREDENTIALS''"
    by (simp add: getenv_missing_def)
  have run: "main_v1 [(''GOOGLE_APPLICATION_CREDENTIALS'', ''key.json'')]
     (sample_collaborators ''unknown.googleapis.com/x'' (Mapping [])) ''s'' ''p'' =
     ([NewClient ''logging.Client'', SinkReload ''p'' ''s'',
       Print ''Writer Identity: serviceAccount:writer'',
       Print ''Destination: unknown.googleapis.com/x'',
       Print ''Unsupported destination type.''], Inr ())"
    using main_v1_unsupported [OF a, of "sample_collaborators ''unknown.googleapis.com/x'' (Mapping [])"
                                 "''p''" "''s''" "''serviceAccount:writer''"
                                 "''unknown.googleapis.com/x''"]
    by simp
  show ?thesis using a by (simp add: run)
qed

text \<open>
  C8, as the code has it. In the first implementation a credential variable that is unset
  or empty is found before any call to a client library: the run prints the instruction,
  audits nothing and returns, so the process ends with status 0. The Cloud Shell
  implementation never looks at the environment: its run always starts by constructing
  the logging client.
\<close>

theorem missing_credentials_v1_returns:
  assumes "getenv_missing environ ''GOOGLE_APPLICATION_CREDENTIALS''"
  shows "main_v1 environ c sink proj =
           ([Print (''Please set the GOOGLE_APPLICATION_CREDENTIALS environment variable '' @
                    ''to your service account key.'')], Inr ()) \<and>
         collaborator_calls (main_v1 environ c sink proj) = [] \<and>
         exit_status (main_v1 environ c sink proj) = 0 \<and>
         (\<exists>evs res. main c sink proj = (NewClient ''logging_v2.Client'' # evs, res))"
  using main_v1_missing_credentials [OF assms, of c sink proj] main_starts_with_client [of c sink proj]
  by (simp add: collaborator_calls_def)

theorem missing_credentials_v1_returns_witness:
  "getenv_missing [] ''GOOGLE_APPLICATION_CREDENTIALS'' \<and>
   main_v1 [] (sample_collaborators ''storage.googleapis.com/b1'' (Mapping [])) ''s'' ''p'' =
     ([Print ''Please set the GOOGLE_APPLICATION_CREDENTIALS environment variable to your service account key.''],
      Inr ()) \<and>
   exit_status (main_v1 [] (sample_collaborators ''storage.googleapis.com/b1'' (Mapping [])) ''s'' ''p'') = 0"
  using missing_credentials_v1_returns
          [of "[]" "sample_collaborators ''storage.googleapis.com/b1'' (Mapping [])" "''s''" "''p''"]
  by (simp add: getenv_missing_def)

text \<open>
  Without the credential variable the first implementation ends with status 0, not with
  a non-zero one, and the Cloud Shell implementation goes on to call its collaborators.
\<close>

theorem missing_credentials_nonzero_exit_counterexample:
  "getenv_missing [] ''GOOGLE_APPLICATION_CREDENTIALS'' \<and>
   exit_status
     (main_v1 [] (sample_collaborators ''storage.googleapis.com/b1'' (Mapping [])) ''s'' ''p'') = 0 \<and>
   collaborator_calls
     (main (sample_collaborators ''storage.googleapis.com/b1'' (Mapping [])) ''s'' ''p'') =
     [NewClient ''logging_v2.Client'', SinkReload ''p'' ''s'', NewClient ''storage.Client'',
      FetchBucket ''b1'']"
proof (intro conjI)
  show "getenv_missing [] ''GOOGLE_APPLICATION_CREDENTIALS''"
    by (simp add: getenv_missing_def)
  then show "exit_status
     (main_v1 [] (sample_collaborators ''storage.googleapis.com/b1'' (Mapping [])) ''s'' ''p'') = 0"
    by (simp add: main_v1_missing_credentials)
  have d: "get_destination_info ''storage.googleapis.com/b1'' = Inr (''storage.googleapis.com'', ''b1'', None)"
    by (simp add: get_destination_info_def)
  show "collaborator_calls
     (main (sample_collaborators ''storage.googleapis.com/b1'' (Mapping [])) ''s'' ''p'') =
     [NewClient ''logging_v2.Client'', SinkReload ''p'' ''s'', NewClient ''storage.Client'',
      FetchBucket ''b1'']"
    by (simp add: main_after_parse [OF _ _ d] main_dispatch_def BIGQUERY_def STORAGE_def
                  get_storage_policy_def bind_io_def construct_def except_NotFound_def
                  lift_io_def audit_policy_def report_def print_def try_main_def
                  collaborator_calls_def)
qed

text \<open>
  C10, as the code has it. In the first implementation a destination that starts with
  the Pub/Sub constant never leads to a result: the run ends in an exception with status
  1 and sends no policy request. The exception is the \<open>NameError\<close> for
  \<open>project_id\<close> when the publisher client is constructed, and the constructor's own
  exception when it raises. The same holds for every call of \<open>get_pubsub_policy\<close> on
  its own.
\<close>

theorem pubsub_path_v1_never_succeeds:
  assumes "\<not> getenv_missing environ ''GOOGLE_APPLICATION_CREDENTIALS''"
      and "new_client c ''logging.Client'' = Inr ()"
      and "sink_reload c proj sink = Inr (w, dest)"
      and "prefix ''pubsub.googleapis.com'' dest"
  shows "main_v1 environ c sink proj =
           ([NewClient ''logging.Client'', SinkReload proj sink,
             Print (''Writer Identity: '' @ w), Print (''Destination: '' @ dest),
             NewClient ''pubsub_v1.PublisherClient''],
            case new_client c ''pubsub_v1.PublisherClient'' of
              Inl e \<Rightarrow> Inl e
            | Inr u \<Rightarrow> Inl (NameError (''name '' @ quoted ''project_id'' @ '' is not defined''))) \<and>
         (\<exists>ev e. main_v1 environ c sink proj = (ev, Inl e)) \<and>
         fetches (main_v1 environ c sink proj) = [] \<and>
         exit_status (main_v1 environ c sink proj) = 1 \<and>
         get_pubsub_policy_v1 c topic =
           ([NewClient ''pubsub_v1.PublisherClient''],
            case new_client c ''pubsub_v1.PublisherClient'' of
              Inl e \<Rightarrow> Inl e
            | Inr u \<Rightarrow> Inl (NameError (''name '' @ quoted ''project_id'' @ '' is not defined''))) \<and>
         fetches (get_pubsub_policy_v1 c topic) = []"
proof -
  note run = main_v1_pubsub [OF assms]
  have 2: "\<exists>ev e. main_v1 environ c sink proj = (ev, Inl e)"
    by (cases "new_client c ''pubsub_v1.PublisherClient''") (simp_all add: run)
  have 3: "fetches (main_v1 environ c sink proj) = []"
    by (simp add: run fetches_def)
  have 4: "exit_status (main_v1 environ c sink proj) = 1"
    by (cases "new_client c ''pubsub_v1.PublisherClient''") (simp_all add: run)
  from run 2 3 4 get_pubsub_policy_v1_fails [of c topic] fetches_get_pubsub_policy_v1 [of c topic]
  show ?thesis by (simp only: simp_thms)
qed

theorem pubsub_path_v1_never_succeeds_witness:
  "\<not> getenv_missing [(''GOOGLE_APPLICATION_CREDENTIALS'', ''key.json'')]
        ''GOOGLE_APPLICATION_CREDENTIALS'' \<and>
   new_client (sample_collaborators ''pubsub.googleapis.com/projects/p1/topics/t1''
                 (Object ''Policy'' [(''bindings'', Mapping [])])) ''logging.Client'' = Inr () \<and>
   sink_reload (sample_collaborators ''pubsub.googleapis.com/projects/p1/topics/t1''
                  (Object ''Policy'' [(''bindings'', Mapping [])])) ''p'' ''s'' =
     Inr (''serviceAccount:writer'', ''pubsub.googleapis.com/projects/p1/topics/t1'') \<and>
   prefix ''pubsub.googleapis.com'' ''pubsub.googleapis.com/projects/p1/topics/t1'' \<and>
   main_v1 [(''GOOGLE_APPLICATION_CREDENTIALS'', ''key.json'')]
     (sample_collaborators ''pubsub.googleapis.com/projects/p1/topics/t1''
        (Object ''Policy'' [(''bindings'', Mapping [])])) ''s'' ''p'' =
     ([NewClient ''logging.Client'', SinkReload ''p'' ''s'',
       Print ''Writer Identity: serviceAccount:writer'',
       Print ''Destination: pubsub.googleapis.com/projects/p1/topics/t1'',
       NewClient ''pubsub_v1.PublisherClient''],
      Inl (NameError (''name '' @ quoted ''project_id'' @ '' is not defined'')))"
  using pubsub_path_v1_never_succeeds
          [of "[(''GOOGLE_APPLICATION_CREDENTIALS'', ''key.json'')]"
              "sample_collaborators ''pubsub.googleapis.com/projects/p1/topics/t1''
                 (Object ''Policy'' [(''bindings'', Mapping [])])"
              "''p''" "''s''" "''serviceAccount:writer''"
              "''pubsub.googleapis.com/projects/p1/topics/t1''"]
  by (simp add: getenv_missing_def)

text \<open>
  When the publisher client cannot be constructed, the Pub/Sub path ends in the
  constructor's exception, which is not a \<open>NameError\<close>.
\<close>

theorem pubsub_path_v1_other_error_counterexample:
  "\<not> getenv_missing [(''GOOGLE_APPLICATION_CREDENTIALS'', ''key.json'')]
        ''GOOGLE_APPLICATION_CREDENTIALS'' \<and>
   prefix ''pubsub.googleapis.com'' ''pubsub.googleapis.com/projects/p1/topics/t1'' \<and>
   main_v1 [(''GOOGLE_APPLICATION_CREDENTIALS'', ''key.json'')]
     (sample_collaborators_without_publisher ''pubsub.googleapis.com/projects/p1/topics/t1''
        (Object ''Policy'' [(''bindings'', Mapping [])])) ''s'' ''p'' =
     ([NewClient ''logging.Client'', SinkReload ''p'' ''s'',
       Print ''Writer Identity: serviceAccount:writer'',
       Print ''Destination: pubsub.googleapis.com/projects/p1/topics/t1'',
       NewClient ''pubsub_v1.PublisherClient''],
      Inl (CollaboratorError ''publisher client unavailable'')) \<and>
   CollaboratorError ''publisher client unavailable'' \<noteq>
     NameError (''name '' @ quoted ''project_id'' @ '' is not defined'')"
proof -
  let ?c = "sample_collaborators_without_publisher ''pubsub.googleapis.com/projects/p1/topics/t1''
              (Object ''Policy'' [(''bindings'', Mapping [])])"
  have a: "\<not> getenv_missing [(''GOOGLE_APPLICATION_CREDENTIALS'', ''key.json'')]
              ''GOOGLE_APPLICATION_CREDENTIALS''"
    by (simp add: getenv_missing_def)
  have b: "new_client ?c ''logging.Client'' = Inr ()"
    by (simp add: sample_collaborators_without_publisher_def)
  have s: "sink_reload ?c ''p'' ''s'' =
             Inr (''serviceAccount:writer'', ''pubsub.googleapis.com/projects/p1/topics/t1'')"
    by (simp add: sample_collaborators_without_publisher_def)
  have p: "prefix ''pubsub.googleapis.com'' ''pubsub.googleapis.com/projects/p1/topics/t1''"
    by simp
  have n: "new_client ?c ''pubsub_v1.PublisherClient'' =
             Inl (CollaboratorError ''publisher client unavailable'')"
    by (simp add: sample_collaborators_without_publisher_def)
  from main_v1_pubsub [OF a b s p] n a p show ?thesis by simp
qed

end
